theory Spec2Isabelle
  imports Main "HOL-Library.Word"
begin

section \<open>Strings of the JavaScript runtime\<close>

text \<open>
  A JavaScript string is a sequence of UTF-16 code units; \<open>length\<close>, \<open>slice\<close> and
  \<open>===\<close> all work on code units. The literals of the source are ASCII and are written
  through \<open>js\<close>.
\<close>

type_synonym jsstring = "16 word list"

definition js :: "string \<Rightarrow> jsstring" where
  "js s = map of_char s"

text \<open>\<open>String.prototype.trim\<close>: white space and line terminators of ECMA-262.\<close>

definition isWhiteSpace :: "16 word \<Rightarrow> bool" where
  "isWhiteSpace c \<longleftrightarrow>
     c = 0x9 \<or> c = 0xA \<or> c = 0xB \<or> c = 0xC \<or> c = 0xD \<or> c = 0x20 \<or> c = 0xA0 \<or>
     c = 0x1680 \<or> (0x2000 \<le> c \<and> c \<le> 0x200A) \<or> c = 0x2028 \<or> c = 0x2029 \<or>
     c = 0x202F \<or> c = 0x205F \<or> c = 0x3000 \<or> c = 0xFEFF"

definition trim :: "jsstring \<Rightarrow> jsstring" where
  "trim s = rev (dropWhile isWhiteSpace (rev (dropWhile isWhiteSpace s)))"

text \<open>
  \<open>String.prototype.toLowerCase\<close>. In a string of ASCII code units it turns \<open>A\<close>..\<open>Z\<close>
  into \<open>a\<close>..\<open>z\<close> and leaves every other code unit as it is. For a string that has a
  code unit above 127 the result comes from the Unicode case tables of the engine (with
  their special cases: U+00C0 becomes U+00E0, U+0130 becomes \<open>i\<close> followed by U+0307, the
  Kelvin sign U+212A becomes \<open>k\<close>). Those tables are not written out here: the
  lowercasing of such strings is the first argument, \<open>unicodeLower\<close>.
\<close>

definition isAscii :: "jsstring \<Rightarrow> bool" where
  "isAscii s = list_all (\<lambda>c. c < 0x80) s"

definition asciiLower :: "16 word \<Rightarrow> 16 word" where
  "asciiLower c = (if 0x41 \<le> c \<and> c \<le> 0x5A then c + 0x20 else c)"

definition toLowerCase :: "(jsstring \<Rightarrow> jsstring) \<Rightarrow> jsstring \<Rightarrow> jsstring" where
  "toLowerCase unicodeLower s = (if isAscii s then map asciiLower s else unicodeLower s)"

text \<open>\<open>Number.prototype.toString\<close> for integers, in decimal.\<close>

definition digit :: "nat \<Rightarrow> 16 word" where
  "digit d = of_nat (48 + d)"

function natToString :: "nat \<Rightarrow> jsstring" where
  "natToString n = (if n < 10 then [digit n] else natToString (n div 10) @ [digit (n mod 10)])"
  by pat_completeness auto
termination
  by (relation "measure (\<lambda>n. n)") auto

declare natToString.simps [simp del]

definition Number_toString :: "int \<Rightarrow> jsstring" where
  "Number_toString n = (if n < 0 then 0x2D # natToString (nat (- n)) else natToString (nat n))"

section \<open>Dates\<close>

text \<open>
  A \<open>Date\<close> object holds a time value: an integral number of milliseconds since the
  epoch, at most 8.64e15 in absolute value, or NaN (an Invalid Date).
\<close>

datatype Date = TimeValue int | InvalidDate

definition TimeClip :: "int \<Rightarrow> Date" where
  "TimeClip t = (if \<bar>t\<bar> \<le> 8640000000000000 then TimeValue t else InvalidDate)"

definition validDate :: "Date \<Rightarrow> bool" where
  "validDate d = (case d of TimeValue t \<Rightarrow> \<bar>t\<bar> \<le> 8640000000000000 | InvalidDate \<Rightarrow> False)"

text \<open>
  Day number (days since 1970-01-01) to proleptic Gregorian year, month and day. Days
  are counted in eras of 400 years (146097 days) that begin on a 1st of March; within
  an era, \<open>daysBeforeYear i\<close> days lie before the year \<open>i\<close> (counted from March), and
  the year of a day is found by going through the years of the era.
\<close>

definition daysBeforeYear :: "int \<Rightarrow> int" where
  "daysBeforeYear i = 365 * i + i div 4 - i div 100"

definition yearOfEra :: "int \<Rightarrow> int" where
  "yearOfEra doe =
    (case find (\<lambda>i. doe < daysBeforeYear (i + 1)) (map int [0..<399]) of
       Some i \<Rightarrow> i
     | None \<Rightarrow> 399)"

definition civil_from_days :: "int \<Rightarrow> int \<times> nat \<times> nat" where
  "civil_from_days z0 =
    (let z = z0 + 719468;
         era = z div 146097;
         doe = z - era * 146097;
         yoe = yearOfEra doe;
         doy = doe - daysBeforeYear yoe;
         mp = (5 * doy + 2) div 153;
         d = doy - (153 * mp + 2) div 5 + 1;
         m = (if mp < 10 then mp + 3 else mp - 9);
         y = yoe + era * 400 + (if m \<le> 2 then 1 else 0)
     in (y, nat m, nat d))"

definition pad :: "nat \<Rightarrow> nat \<Rightarrow> jsstring" where
  "pad w n = replicate (w - length (natToString n)) 0x30 @ natToString n"

definition yearString :: "int \<Rightarrow> jsstring" where
  "yearString y =
    (if 0 \<le> y \<and> y \<le> 9999 then pad 4 (nat y)
     else (if y < 0 then 0x2D else 0x2B) # pad 6 (nat \<bar>y\<bar>))"

text \<open>\<open>Date.prototype.toISOString\<close>: \<open>YYYY-MM-DDTHH:mm:ss.sssZ\<close>, with a signed
  six-digit year outside 0..9999.\<close>

definition toISOString :: "int \<Rightarrow> jsstring" where
  "toISOString t =
    (let day = t div 86400000;
         msInDay = nat (t mod 86400000);
         (y, m, d) = civil_from_days day
     in yearString y @ 0x2D # pad 2 m @ 0x2D # pad 2 d @ 0x54 #
        pad 2 (msInDay div 3600000) @ 0x3A #
        pad 2 (msInDay div 60000 mod 60) @ 0x3A #
        pad 2 (msInDay div 1000 mod 60) @ 0x2E #
        pad 3 (msInDay mod 1000) @ [0x5A])"

section \<open>JSON values and \<open>JSON.stringify\<close>\<close>

text \<open>
  Numbers are exact integers (\<open>JNum\<close>); a number literal with a fraction or an exponent
  is kept as its text (\<open>JReal\<close>). An object is the list of its members in order.
\<close>

datatype json =
    JNull
  | JBool bool
  | JNum int
  | JReal jsstring
  | JStr jsstring
  | JArr "json list"
  | JObj "(jsstring \<times> json) list"

definition hexdigit :: "nat \<Rightarrow> 16 word" where
  "hexdigit d = (if d < 10 then of_nat (48 + d) else of_nat (87 + d))"

definition unicodeEscape :: "16 word \<Rightarrow> jsstring" where
  "unicodeEscape c =
    [0x5C, 0x75, hexdigit (unat c div 4096), hexdigit (unat c div 256 mod 16),
     hexdigit (unat c div 16 mod 16), hexdigit (unat c mod 16)]"

definition escapeUnit :: "16 word \<Rightarrow> jsstring" where
  "escapeUnit c =
    (if c = 0x08 then [0x5C, 0x62]
     else if c = 0x09 then [0x5C, 0x74]
     else if c = 0x0A then [0x5C, 0x6E]
     else if c = 0x0C then [0x5C, 0x66]
     else if c = 0x0D then [0x5C, 0x72]
     else if c = 0x22 then [0x5C, 0x22]
     else if c = 0x5C then [0x5C, 0x5C]
     else if c < 0x20 then unicodeEscape c
     else [c])"

definition isHighSurrogate :: "16 word \<Rightarrow> bool" where
  "isHighSurrogate c \<longleftrightarrow> 0xD800 \<le> c \<and> c \<le> 0xDBFF"

definition isLowSurrogate :: "16 word \<Rightarrow> bool" where
  "isLowSurrogate c \<longleftrightarrow> 0xDC00 \<le> c \<and> c \<le> 0xDFFF"

text \<open>The body of \<open>QuoteJSONString\<close>: a surrogate that is not part of a pair is escaped.\<close>

fun quoteBody :: "jsstring \<Rightarrow> jsstring" where
  "quoteBody [] = []"
| "quoteBody [c] =
     (if isHighSurrogate c \<or> isLowSurrogate c then unicodeEscape c else escapeUnit c)"
| "quoteBody (c # d # cs) =
     (if isHighSurrogate c \<and> isLowSurrogate d then c # d # quoteBody cs
      else if isHighSurrogate c \<or> isLowSurrogate c then unicodeEscape c @ quoteBody (d # cs)
      else escapeUnit c @ quoteBody (d # cs))"

definition QuoteJSONString :: "jsstring \<Rightarrow> jsstring" where
  "QuoteJSONString s = 0x22 # quoteBody s @ [0x22]"

fun JSON_stringify :: "json \<Rightarrow> jsstring"
  and stringify_elems :: "json list \<Rightarrow> jsstring"
  and stringify_members :: "(jsstring \<times> json) list \<Rightarrow> jsstring"
where
  "JSON_stringify JNull = js ''null''"
| "JSON_stringify (JBool b) = (if b then js ''true'' else js ''false'')"
| "JSON_stringify (JNum n) = Number_toString n"
| "JSON_stringify (JReal s) = s"
| "JSON_stringify (JStr s) = QuoteJSONString s"
| "JSON_stringify (JArr vs) = 0x5B # stringify_elems vs @ [0x5D]"
| "JSON_stringify (JObj kvs) = 0x7B # stringify_members kvs @ [0x7D]"
| "stringify_elems [] = []"
| "stringify_elems [v] = JSON_stringify v"
| "stringify_elems (v # w # vs) = JSON_stringify v @ 0x2C # stringify_elems (w # vs)"
| "stringify_members [] = []"
| "stringify_members [(k, v)] = QuoteJSONString k @ 0x3A # JSON_stringify v"
| "stringify_members ((k, v) # kv # kvs) =
     QuoteJSONString k @ 0x3A # JSON_stringify v @ 0x2C # stringify_members (kv # kvs)"

section \<open>The data of the chat page\<close>

record Message =
  msg_id :: jsstring
  content :: jsstring
  isBot :: bool
  timestamp :: Date

record ChatHistory =
  chat_id :: jsstring
  title :: jsstring
  messages :: "Message list"
  createdAt :: Date

record UserData =
  username :: jsstring
  role :: jsstring
  questionsToday :: int

text \<open>What \<open>JSON.stringify\<close> sees of these objects: the own properties in creation
  order, a \<open>Date\<close> through its \<open>toJSON\<close> (the ISO string, or null for an Invalid Date).\<close>

definition Date_toJSON :: "Date \<Rightarrow> json" where
  "Date_toJSON d =
    (case d of
       TimeValue t \<Rightarrow> if \<bar>t\<bar> \<le> 8640000000000000 then JStr (toISOString t) else JNull
     | InvalidDate \<Rightarrow> JNull)"

definition Message_toJSON :: "Message \<Rightarrow> json" where
  "Message_toJSON m =
    JObj [(js ''id'', JStr (msg_id m)), (js ''content'', JStr (content m)),
          (js ''isBot'', JBool (isBot m)), (js ''timestamp'', Date_toJSON (timestamp m))]"

definition ChatHistory_toJSON :: "ChatHistory \<Rightarrow> json" where
  "ChatHistory_toJSON c =
    JObj [(js ''id'', JStr (chat_id c)), (js ''title'', JStr (title c)),
          (js ''messages'', JArr (map Message_toJSON (messages c))),
          (js ''createdAt'', Date_toJSON (createdAt c))]"

definition UserData_toJSON :: "UserData \<Rightarrow> json" where
  "UserData_toJSON u =
    JObj [(js ''username'', JStr (username u)), (js ''role'', JStr (role u)),
          (js ''questionsToday'', JNum (questionsToday u))]"

text \<open>
  The state of the \<open>Chat\<close> component (its \<open>useState\<close> cells) together with the parts of
  the browser it touches: local storage, the cookie jar, the current route and the
  toasts shown so far.
\<close>

record World =
  user :: "UserData option"
  currentMessage :: jsstring
  chatHistory :: "ChatHistory list"
  activeChat :: "jsstring option"
  currentMessages :: "Message list"
  isLoading :: bool
  localStorage :: "jsstring \<rightharpoonup> jsstring"
  cookies :: "jsstring \<rightharpoonup> jsstring"
  location :: jsstring
  toasts :: "jsstring list"

text \<open>What the callback given to \<open>setTimeout\<close> has captured from the render in which
  \<open>handleSendMessage\<close> ran.\<close>

record Pending =
  p_userMessage :: Message
  p_updatedMessages :: "Message list"
  p_activeChat :: "jsstring option"
  p_chatHistory :: "ChatHistory list"
  p_username :: jsstring

text \<open>The clock readings and random draws of one run of the timer callback, in the
  order the callback makes them.\<close>

record TimerEnv =
  now_botId :: int
  now_botStamp :: int
  random_reply :: nat
  now_chatId :: int
  random_chatId :: jsstring
  now_created :: int

section \<open>The handlers of the chat page\<close>

definition canAskQuestion :: "UserData option \<Rightarrow> bool" where
  "canAskQuestion usr =
    (case usr of None \<Rightarrow> False
     | Some u \<Rightarrow> if role u = js ''admin'' then True else questionsToday u < 10)"

definition getQuestionLimit :: "UserData option \<Rightarrow> jsstring" where
  "getQuestionLimit usr =
    (case usr of None \<Rightarrow> []
     | Some u \<Rightarrow> if role u = js ''admin'' then js ''Unlimited''
                 else Number_toString (questionsToday u) @ js ''/10 today'')"

definition generateChatId :: "int \<Rightarrow> jsstring \<Rightarrow> jsstring" where
  "generateChatId now rnd = js ''chat-'' @ Number_toString now @ js ''-'' @ rnd"

definition generateBotResponse :: "nat \<Rightarrow> jsstring \<Rightarrow> jsstring" where
  "generateBotResponse k userMessage =
    [js ''I understand your question about: '' @ take 30 userMessage @
       js ''... Let me help you with that.'',
     js ''That's an interesting point! Here's what I think about '' @ take 20 userMessage @
       js ''...'',
     js ''Based on your question, I can provide some insights on this topic.'',
     js ''Thank you for asking! This is a great question that requires careful consideration.'',
     js ''I can help you with that. Let me break down the information for you.'']
    ! (k mod 5)"

definition chatTitle :: "jsstring \<Rightarrow> jsstring" where
  "chatTitle body = take 30 body @ (if length body > 30 then js ''...'' else [])"

text \<open>
  \<open>handleSendMessage\<close> up to the call of \<open>setTimeout\<close>. The two integers are the
  readings of \<open>Date.now()\<close> and \<open>new Date()\<close>. The result is the new world and, when the
  message was accepted, the closure handed to the timer.
\<close>

definition handleSendMessage :: "int \<Rightarrow> int \<Rightarrow> World \<Rightarrow> World \<times> Pending option" where
  "handleSendMessage now_id now_stamp w =
    (case user w of
       None \<Rightarrow> (w, None)
     | Some u \<Rightarrow>
        if trim (currentMessage w) = [] \<or> \<not> canAskQuestion (user w) then (w, None)
        else if \<not> canAskQuestion (user w) then
          (w\<lparr>toasts := toasts w @ [js ''Question limit reached'']\<rparr>, None)
        else
          let userMessage = \<lparr>msg_id = Number_toString now_id, content = currentMessage w,
                             isBot = False, timestamp = TimeClip now_stamp\<rparr>;
              updatedMessages = currentMessages w @ [userMessage];
              updatedUser = u\<lparr>questionsToday := questionsToday u + 1\<rparr>
          in (w\<lparr>isLoading := True,
                 currentMessages := updatedMessages,
                 currentMessage := [],
                 user := Some updatedUser,
                 localStorage := (localStorage w)
                   (js ''user'' \<mapsto> JSON_stringify (UserData_toJSON updatedUser))\<rparr>,
              Some \<lparr>p_userMessage = userMessage, p_updatedMessages = updatedMessages,
                    p_activeChat = activeChat w, p_chatHistory = chatHistory w,
                    p_username = username u\<rparr>))"

text \<open>A string or null used as a condition: null and the empty string are falsy.\<close>

definition truthy :: "jsstring option \<Rightarrow> bool" where
  "truthy x = (case x of None \<Rightarrow> False | Some s \<Rightarrow> s \<noteq> [])"

text \<open>The callback of \<open>setTimeout\<close>, run 1500 ms later on whatever the world is then.\<close>

definition handleSendMessage_timeout :: "TimerEnv \<Rightarrow> Pending \<Rightarrow> World \<Rightarrow> World" where
  "handleSendMessage_timeout e p w =
    (let botMessage = \<lparr>msg_id = Number_toString (now_botId e + 1),
                       content = generateBotResponse (random_reply e) (content (p_userMessage p)),
                       isBot = True, timestamp = TimeClip (now_botStamp e)\<rparr>;
         updatedMessages = p_updatedMessages p @ [botMessage];
         newTitle = chatTitle (content (p_userMessage p));
         key = js ''chatHistory_'' @ p_username p
     in if truthy (p_activeChat p) then
          let updatedHistory =
                map (\<lambda>chat. if Some (chat_id chat) = p_activeChat p
                             then chat\<lparr>messages := updatedMessages, title := newTitle\<rparr>
                             else chat) (p_chatHistory p)
          in w\<lparr>currentMessages := updatedMessages,
               chatHistory := updatedHistory,
               localStorage := (localStorage w)
                 (key \<mapsto> JSON_stringify (JArr (map ChatHistory_toJSON updatedHistory))),
               isLoading := False\<rparr>
        else
          let newChat = \<lparr>chat_id = generateChatId (now_chatId e) (random_chatId e),
                         title = newTitle, messages = updatedMessages,
                         createdAt = TimeClip (now_created e)\<rparr>;
              updatedHistory = newChat # p_chatHistory p
          in w\<lparr>currentMessages := updatedMessages,
               chatHistory := updatedHistory,
               activeChat := Some (chat_id newChat),
               localStorage := (localStorage w)
                 (key \<mapsto> JSON_stringify (JArr (map ChatHistory_toJSON updatedHistory))),
               isLoading := False\<rparr>)"

definition startNewChat :: "World \<Rightarrow> World" where
  "startNewChat w = w\<lparr>activeChat := None, currentMessages := []\<rparr>"

definition loadChat :: "jsstring \<Rightarrow> World \<Rightarrow> World" where
  "loadChat chatId w =
    (case find (\<lambda>c. chat_id c = chatId) (chatHistory w) of
       Some chat \<Rightarrow> w\<lparr>activeChat := Some chatId, currentMessages := messages chat\<rparr>
     | None \<Rightarrow> w)"

definition handleLogout :: "World \<Rightarrow> World" where
  "handleLogout w = w\<lparr>localStorage := (localStorage w)(js ''user'' := None), location := js ''/''\<rparr>"

text \<open>The transcript that \<open>activeChat\<close> points to, looked up as \<open>loadChat\<close> does.\<close>

definition activeTranscript :: "World \<Rightarrow> ChatHistory option" where
  "activeTranscript w =
    (case activeChat w of None \<Rightarrow> None
     | Some a \<Rightarrow> find (\<lambda>c. chat_id c = a) (chatHistory w))"

section \<open>The cookie wrapper and the login page\<close>

definition TOKEN_KEY :: jsstring where
  "TOKEN_KEY = js ''auth_token''"

definition setToken :: "jsstring \<Rightarrow> World \<Rightarrow> World" where
  "setToken token w = w\<lparr>cookies := (cookies w)(TOKEN_KEY \<mapsto> token)\<rparr>"

definition getToken :: "World \<Rightarrow> jsstring option" where
  "getToken w = cookies w TOKEN_KEY"

definition removeToken :: "World \<Rightarrow> World" where
  "removeToken w = w\<lparr>cookies := (cookies w)(TOKEN_KEY := None)\<rparr>"

definition isAuthenticated :: "World \<Rightarrow> bool" where
  "isAuthenticated w = truthy (cookies w TOKEN_KEY)"

text \<open>The timer callback of \<open>handleLogin\<close>, for the contents of the two input fields;
  \<open>unicodeLower\<close> is passed on to \<open>toLowerCase\<close>.\<close>

definition handleLogin :: "(jsstring \<Rightarrow> jsstring) \<Rightarrow> jsstring \<Rightarrow> jsstring \<Rightarrow> World \<Rightarrow> World" where
  "handleLogin unicodeLower usernameField passwordField w =
    (if usernameField \<noteq> [] \<and> passwordField \<noteq> [] then
       let userData = \<lparr>username = usernameField,
                        role = toLowerCase unicodeLower usernameField,
                        questionsToday = 0\<rparr>
       in w\<lparr>localStorage := (localStorage w)(js ''user'' \<mapsto> JSON_stringify (UserData_toJSON userData)),
            toasts := toasts w @ [js ''Login successful!''],
            location := js ''/chat''\<rparr>
     else w\<lparr>toasts := toasts w @ [js ''Login failed'']\<rparr>)"

section \<open>Conversations: a sequence of turns\<close>

text \<open>
  One turn: the input field receives \<open>body\<close> (\<open>setCurrentMessage\<close> from \<open>onChange\<close>),
  \<open>handleSendMessage\<close> runs, and when it accepted the message its timer fires before
  the next turn (the input is disabled while \<open>isLoading\<close>). The flag says whether the
  message was accepted.
\<close>

record TurnInput =
  body :: jsstring
  now_userId :: int
  now_userStamp :: int
  timerEnv :: TimerEnv

definition turn :: "TurnInput \<Rightarrow> World \<Rightarrow> bool \<times> World" where
  "turn i w =
    (case handleSendMessage (now_userId i) (now_userStamp i) (w\<lparr>currentMessage := body i\<rparr>) of
       (w', None) \<Rightarrow> (False, w')
     | (w', Some p) \<Rightarrow> (True, handleSendMessage_timeout (timerEnv i) p w'))"

fun turns :: "TurnInput list \<Rightarrow> World \<Rightarrow> bool list \<times> World" where
  "turns [] w = ([], w)"
| "turns (i # is) w =
     (case turn i w of (a, w') \<Rightarrow> (case turns is w' of (as, w'') \<Rightarrow> (a # as, w'')))"

section \<open>\<open>JSON.parse\<close>\<close>

text \<open>
  A recursive-descent reader of the JSON grammar (ECMA-404) on code units. White space
  is space, tab, line feed and carriage return. The functions for values, array elements
  and object members call each other; their first argument bounds the number of nested
  calls and is set from the length of the text.
\<close>

definition isJsonWS :: "16 word \<Rightarrow> bool" where
  "isJsonWS c \<longleftrightarrow> c = 0x20 \<or> c = 0x09 \<or> c = 0x0A \<or> c = 0x0D"

definition skipWS :: "jsstring \<Rightarrow> jsstring" where
  "skipWS cs = dropWhile isJsonWS cs"

definition isDigit :: "16 word \<Rightarrow> bool" where
  "isDigit c \<longleftrightarrow> 0x30 \<le> c \<and> c \<le> 0x39"

definition digitVal :: "16 word \<Rightarrow> nat" where
  "digitVal c = unat c - 48"

definition digitsVal :: "jsstring \<Rightarrow> nat" where
  "digitsVal ds = foldl (\<lambda>n c. 10 * n + digitVal c) 0 ds"

definition hexVal :: "16 word \<Rightarrow> nat option" where
  "hexVal c =
    (if 0x30 \<le> c \<and> c \<le> 0x39 then Some (unat c - 48)
     else if 0x61 \<le> c \<and> c \<le> 0x66 then Some (unat c - 87)
     else if 0x41 \<le> c \<and> c \<le> 0x46 then Some (unat c - 55)
     else None)"

text \<open>The character after a backslash, other than \<open>u\<close>.\<close>

definition unescape :: "16 word \<Rightarrow> 16 word option" where
  "unescape e =
    (if e = 0x22 then Some 0x22
     else if e = 0x5C then Some 0x5C
     else if e = 0x2F then Some 0x2F
     else if e = 0x62 then Some 0x08
     else if e = 0x66 then Some 0x0C
     else if e = 0x6E then Some 0x0A
     else if e = 0x72 then Some 0x0D
     else if e = 0x74 then Some 0x09
     else None)"

definition consFst :: "'a \<Rightarrow> ('a list \<times> 'b) option \<Rightarrow> ('a list \<times> 'b) option" where
  "consFst x r = (case r of None \<Rightarrow> None | Some (xs, rest) \<Rightarrow> Some (x # xs, rest))"

text \<open>The characters of a string after its opening quote, up to the closing quote.\<close>

fun parse_chars :: "jsstring \<Rightarrow> (jsstring \<times> jsstring) option" where
  "parse_chars [] = None"
| "parse_chars (c # cs) =
     (if c = 0x22 then Some ([], cs)
      else if c = 0x5C then
        (case cs of
           [] \<Rightarrow> None
         | e # cs1 \<Rightarrow>
             if e = 0x75 then
               (case cs1 of
                  h1 # h2 # h3 # h4 # cs2 \<Rightarrow>
                    (case (hexVal h1, hexVal h2, hexVal h3, hexVal h4) of
                       (Some a, Some b, Some c, Some d) \<Rightarrow>
                         consFst (of_nat (4096 * a + 256 * b + 16 * c + d)) (parse_chars cs2)
                     | _ \<Rightarrow> None)
                | _ \<Rightarrow> None)
             else
               (case unescape e of
                  None \<Rightarrow> None
                | Some x \<Rightarrow> consFst x (parse_chars cs1)))
      else if c < 0x20 then None
      else consFst c (parse_chars cs))"

text \<open>
  A number: an optional minus, an integer part without leading zeros, an optional
  fraction and an optional exponent. Without fraction and exponent it is read as the
  integer it denotes; otherwise its text is kept.
\<close>

definition parse_sign :: "jsstring \<Rightarrow> bool \<times> jsstring" where
  "parse_sign cs =
    (case cs of [] \<Rightarrow> (False, [])
     | c # r \<Rightarrow> if c = 0x2D then (True, r) else (False, cs))"

definition parse_fraction :: "jsstring \<Rightarrow> jsstring option \<times> jsstring" where
  "parse_fraction cs =
    (case cs of [] \<Rightarrow> (None, [])
     | c # r \<Rightarrow> if c = 0x2E then (Some (takeWhile isDigit r), dropWhile isDigit r)
               else (None, cs))"

definition parse_exponent :: "jsstring \<Rightarrow> jsstring option \<times> jsstring" where
  "parse_exponent cs =
    (case cs of [] \<Rightarrow> (None, [])
     | c # r \<Rightarrow>
         if c = 0x65 \<or> c = 0x45 then
           (let r1 = (case r of [] \<Rightarrow> []
                      | s # r2 \<Rightarrow> if s = 0x2B \<or> s = 0x2D then r2 else r)
            in (Some (takeWhile isDigit r1), dropWhile isDigit r1))
         else (None, cs))"

definition parse_number :: "jsstring \<Rightarrow> (json \<times> jsstring) option" where
  "parse_number cs =
    (let (neg, cs1) = parse_sign cs;
         ds = takeWhile isDigit cs1;
         cs2 = dropWhile isDigit cs1
     in if ds = [] \<or> (1 < length ds \<and> hd ds = 0x30) then None
        else
          let (frac, cs3) = parse_fraction cs2;
              (ex, cs4) = parse_exponent cs3
          in if frac = Some [] \<or> ex = Some [] then None
             else if frac = None \<and> ex = None then
               Some (JNum (if neg then - int (digitsVal ds) else int (digitsVal ds)), cs4)
             else Some (JReal (take (length cs - length cs4) cs), cs4))"

definition parse_literal :: "jsstring \<Rightarrow> (json \<times> jsstring) option" where
  "parse_literal cs =
    (if take 4 cs = js ''true'' then Some (JBool True, drop 4 cs)
     else if take 5 cs = js ''false'' then Some (JBool False, drop 5 cs)
     else if take 4 cs = js ''null'' then Some (JNull, drop 4 cs)
     else None)"

fun parse_value :: "nat \<Rightarrow> jsstring \<Rightarrow> (json \<times> jsstring) option"
  and parse_elems :: "nat \<Rightarrow> jsstring \<Rightarrow> (json list \<times> jsstring) option"
  and parse_members :: "nat \<Rightarrow> jsstring \<Rightarrow> ((jsstring \<times> json) list \<times> jsstring) option"
where
  "parse_value 0 cs = None"
| "parse_value (Suc n) cs =
     (case skipWS cs of
        [] \<Rightarrow> None
      | c # r \<Rightarrow>
          if c = 0x7B then
            (case skipWS r of
               [] \<Rightarrow> None
             | d # r1 \<Rightarrow>
                 if d = 0x7D then Some (JObj [], r1)
                 else (case parse_members n r of
                         None \<Rightarrow> None
                       | Some (kvs, r2) \<Rightarrow> Some (JObj kvs, r2)))
          else if c = 0x5B then
            (case skipWS r of
               [] \<Rightarrow> None
             | d # r1 \<Rightarrow>
                 if d = 0x5D then Some (JArr [], r1)
                 else (case parse_elems n r of
                         None \<Rightarrow> None
                       | Some (vs, r2) \<Rightarrow> Some (JArr vs, r2)))
          else if c = 0x22 then
            (case parse_chars r of
               None \<Rightarrow> None
             | Some (s, r1) \<Rightarrow> Some (JStr s, r1))
          else if c = 0x2D \<or> isDigit c then parse_number (c # r)
          else parse_literal (c # r))"
| "parse_elems 0 cs = None"
| "parse_elems (Suc n) cs =
     (case parse_value n cs of
        None \<Rightarrow> None
      | Some (v, r) \<Rightarrow>
          (case skipWS r of
             [] \<Rightarrow> None
           | c # r1 \<Rightarrow>
               if c = 0x5D then Some ([v], r1)
               else if c = 0x2C then consFst v (parse_elems n r1)
               else None))"
| "parse_members 0 cs = None"
| "parse_members (Suc n) cs =
     (case skipWS cs of
        [] \<Rightarrow> None
      | q # r \<Rightarrow>
          if q = 0x22 then
            (case parse_chars r of
               None \<Rightarrow> None
             | Some (k, r1) \<Rightarrow>
                 (case skipWS r1 of
                    [] \<Rightarrow> None
                  | c # r2 \<Rightarrow>
                      if c = 0x3A then
                        (case parse_value n r2 of
                           None \<Rightarrow> None
                         | Some (v, r3) \<Rightarrow>
                             (case skipWS r3 of
                                [] \<Rightarrow> None
                              | d # r4 \<Rightarrow>
                                  if d = 0x7D then Some ([(k, v)], r4)
                                  else if d = 0x2C then consFst (k, v) (parse_members n r4)
                                  else None))
                      else None))
          else None)"

text \<open>\<open>JSON.parse\<close>: one value, with nothing but white space after it; \<open>None\<close> stands
  for the \<open>SyntaxError\<close> it throws.\<close>

definition JSON_parse :: "jsstring \<Rightarrow> json option" where
  "JSON_parse s =
    (case parse_value (Suc (length s)) s of
       None \<Rightarrow> None
     | Some (v, rest) \<Rightarrow> if skipWS rest = [] then Some v else None)"

section \<open>Reading dates back\<close>

text \<open>Proleptic Gregorian year, month, day to day number (the \<open>MakeDay\<close> of ECMA-262).\<close>

definition days_from_civil :: "int \<Rightarrow> int \<Rightarrow> int \<Rightarrow> int" where
  "days_from_civil y0 m d =
    (let y = (if m \<le> 2 then y0 - 1 else y0);
         era = y div 400;
         yoe = y - era * 400;
         mp = (if 2 < m then m - 3 else m + 9);
         doy = (153 * mp + 2) div 5 + d - 1;
         doe = daysBeforeYear yoe + doy
     in era * 146097 + doe - 719468)"

definition parse_digits :: "jsstring \<Rightarrow> nat option" where
  "parse_digits ds = (if ds \<noteq> [] \<and> list_all isDigit ds then Some (digitsVal ds) else None)"

text \<open>
  \<open>Date.parse\<close> on the format that \<open>toISOString\<close> writes: a four-digit year or a signed
  six-digit year, then \<open>-MM-DDTHH:mm:ss.sssZ\<close>, with the month in 1..12, the day in
  1..31 (a day past the end of the month runs into the next one, as \<open>MakeDay\<close> has it),
  the hour below 24, minute and second below 60. The result is \<open>None\<close> for every other
  string: the other spellings that engines accept are not part of this model.
\<close>

definition Date_parse :: "jsstring \<Rightarrow> Date option" where
  "Date_parse s =
    (let (sgn, ylen, s1) =
           (case s of [] \<Rightarrow> (1 :: int, 4 :: nat, [])
            | c # r \<Rightarrow> if c = 0x2B then (1, 6, r) else if c = 0x2D then (- 1, 6, r) else (1, 4, s));
         t = drop ylen s1
     in if length t = 20 \<and> t ! 0 = 0x2D \<and> t ! 3 = 0x2D \<and> t ! 6 = 0x54 \<and> t ! 9 = 0x3A \<and>
           t ! 12 = 0x3A \<and> t ! 15 = 0x2E \<and> t ! 19 = 0x5A then
          (case (parse_digits (take ylen s1), parse_digits (take 2 (drop 1 t)),
                 parse_digits (take 2 (drop 4 t)), parse_digits (take 2 (drop 7 t)),
                 parse_digits (take 2 (drop 10 t)), parse_digits (take 2 (drop 13 t)),
                 parse_digits (take 3 (drop 16 t))) of
             (Some y, Some mo, Some d, Some h, Some mi, Some sec, Some ms) \<Rightarrow>
               if 1 \<le> mo \<and> mo \<le> 12 \<and> 1 \<le> d \<and> d \<le> 31 \<and> h \<le> 23 \<and> mi \<le> 59 \<and> sec \<le> 59 \<and>
                  \<not> (sgn = - 1 \<and> y = 0) then
                 Some (TimeClip
                   (days_from_civil (sgn * int y) (int mo) (int d) * 86400000 +
                    int h * 3600000 + int mi * 60000 + int sec * 1000 + int ms))
               else None
           | _ \<Rightarrow> None)
        else None)"

section \<open>Loading the page\<close>

text \<open>
  The exceptions that can leave the load effect. \<open>Unmodelled\<close> is not an exception of
  the program: the source casts what \<open>JSON.parse\<close> returns to the declared interface
  types without looking at it, this model follows the declared types, and a stored
  value of any other shape is reported as \<open>Unmodelled\<close> instead of being followed.
\<close>

datatype error = SyntaxError | TypeError | Unmodelled

text \<open>Property lookup in a parsed object: of several members with one name the last
  one counts.\<close>

definition getProp :: "(jsstring \<times> json) list \<Rightarrow> jsstring \<Rightarrow> json option" where
  "getProp kvs k = map_of (rev kvs) k"

text \<open>\<open>new Date(x)\<close> for a property value \<open>x\<close> (\<open>None\<close> is \<open>undefined\<close>).\<close>

definition new_Date :: "json option \<Rightarrow> error + Date" where
  "new_Date x =
    (case x of
       None \<Rightarrow> Inr InvalidDate
     | Some JNull \<Rightarrow> Inr (TimeValue 0)
     | Some (JBool b) \<Rightarrow> Inr (TimeValue (if b then 1 else 0))
     | Some (JNum n) \<Rightarrow> Inr (TimeClip n)
     | Some (JStr s) \<Rightarrow> (case Date_parse s of None \<Rightarrow> Inl Unmodelled | Some d \<Rightarrow> Inr d)
     | Some _ \<Rightarrow> Inl Unmodelled)"

text \<open>\<open>xs.map(f)\<close> where \<open>f\<close> may throw: the first exception ends the loop.\<close>

fun mapE :: "('a \<Rightarrow> error + 'b) \<Rightarrow> 'a list \<Rightarrow> error + 'b list" where
  "mapE f [] = Inr []"
| "mapE f (x # xs) =
     (case f x of
        Inl e \<Rightarrow> Inl e
      | Inr y \<Rightarrow> (case mapE f xs of Inl e \<Rightarrow> Inl e | Inr ys \<Rightarrow> Inr (y # ys)))"

text \<open>\<open>msg => ({...msg, timestamp: new Date(msg.timestamp)})\<close>\<close>

definition reviveMessage :: "json \<Rightarrow> error + Message" where
  "reviveMessage msg =
    (case msg of
       JNull \<Rightarrow> Inl TypeError
     | JObj kvs \<Rightarrow>
         (case new_Date (getProp kvs (js ''timestamp'')) of
            Inl e \<Rightarrow> Inl e
          | Inr d \<Rightarrow>
              (case (getProp kvs (js ''id''), getProp kvs (js ''content''),
                     getProp kvs (js ''isBot'')) of
                 (Some (JStr i), Some (JStr c), Some (JBool b)) \<Rightarrow>
                   Inr \<lparr>msg_id = i, content = c, isBot = b, timestamp = d\<rparr>
               | _ \<Rightarrow> Inl Unmodelled))
     | _ \<Rightarrow> Inl Unmodelled)"

text \<open>\<open>chat => ({...chat, createdAt: new Date(chat.createdAt),
  messages: chat.messages.map(...)})\<close>. Reading a property of null is a \<open>TypeError\<close>, and
  so is \<open>chat.messages.map\<close> when \<open>chat.messages\<close> is anything but an array.\<close>

definition reviveChat :: "json \<Rightarrow> error + ChatHistory" where
  "reviveChat chat =
    (case chat of
       JObj kvs \<Rightarrow>
         (case getProp kvs (js ''messages'') of
            Some (JArr ms) \<Rightarrow>
              (case new_Date (getProp kvs (js ''createdAt'')) of
                 Inl e \<Rightarrow> Inl e
               | Inr d \<Rightarrow>
                   (case mapE reviveMessage ms of
                      Inl e \<Rightarrow> Inl e
                    | Inr msgs \<Rightarrow>
                        (case (getProp kvs (js ''id''), getProp kvs (js ''title'')) of
                           (Some (JStr i), Some (JStr t)) \<Rightarrow>
                             Inr \<lparr>chat_id = i, title = t, messages = msgs, createdAt = d\<rparr>
                         | _ \<Rightarrow> Inl Unmodelled)))
          | _ \<Rightarrow> Inl TypeError)
     | _ \<Rightarrow> Inl TypeError)"

definition reviveHistory :: "json \<Rightarrow> error + ChatHistory list" where
  "reviveHistory parsedHistory =
    (case parsedHistory of
       JArr chats \<Rightarrow> mapE reviveChat chats
     | _ \<Rightarrow> Inl TypeError)"

text \<open>The parsed user blob, as the \<open>UserData\<close> it is declared to be; reading
  \<open>parsedUser.username\<close> of null is a \<open>TypeError\<close>.\<close>

definition reviveUser :: "json \<Rightarrow> error + UserData" where
  "reviveUser parsedUser =
    (case parsedUser of
       JNull \<Rightarrow> Inl TypeError
     | JObj kvs \<Rightarrow>
         (case (getProp kvs (js ''username''), getProp kvs (js ''role''),
                getProp kvs (js ''questionsToday'')) of
            (Some (JStr n), Some (JStr r), Some (JNum q)) \<Rightarrow>
              Inr \<lparr>username = n, role = r, questionsToday = q\<rparr>
          | _ \<Rightarrow> Inl Unmodelled)
     | _ \<Rightarrow> Inl Unmodelled)"

text \<open>
  The effect that \<open>Chat\<close> runs when it mounts. \<open>localStorage.getItem\<close> gives null for a
  missing key, and null and the empty string are both falsy. An exception thrown by
  \<open>JSON.parse\<close> or by the conversion is not caught anywhere: it leaves the effect.
\<close>

definition Chat_useEffect :: "World \<Rightarrow> error + World" where
  "Chat_useEffect w =
    (if \<not> truthy (localStorage w (js ''user'')) then Inr (w\<lparr>location := js ''/''\<rparr>)
     else
       case JSON_parse (the (localStorage w (js ''user''))) of
         None \<Rightarrow> Inl SyntaxError
       | Some parsedUser \<Rightarrow>
           (case reviveUser parsedUser of
              Inl e \<Rightarrow> Inl e
            | Inr u \<Rightarrow>
                let savedHistory = localStorage w (js ''chatHistory_'' @ username u) in
                if \<not> truthy savedHistory then Inr (w\<lparr>user := Some u\<rparr>)
                else
                  (case JSON_parse (the savedHistory) of
                     None \<Rightarrow> Inl SyntaxError
                   | Some parsedHistory \<Rightarrow>
                       (case reviveHistory parsedHistory of
                          Inl e \<Rightarrow> Inl e
                        | Inr historyWithDates \<Rightarrow>
                            Inr (w\<lparr>user := Some u, chatHistory := historyWithDates\<rparr>)))))"

section \<open>Notions used in the proofs\<close>

text \<open>What may follow a value inside an array or an object, or at the end of the text.\<close>

definition delimited :: "jsstring \<Rightarrow> bool" where
  "delimited rest \<longleftrightarrow> (case rest of [] \<Rightarrow> True | c # _ \<Rightarrow> c = 0x2C \<or> c = 0x5D \<or> c = 0x7D)"

text \<open>JSON values whose numbers are all integers: the values that \<open>JSON.stringify\<close>
  writes for the objects of this program.\<close>

fun exact :: "json \<Rightarrow> bool"
  and exact_elems :: "json list \<Rightarrow> bool"
  and exact_members :: "(jsstring \<times> json) list \<Rightarrow> bool"
where
  "exact JNull = True"
| "exact (JBool b) = True"
| "exact (JNum n) = True"
| "exact (JReal s) = False"
| "exact (JStr s) = True"
| "exact (JArr vs) = exact_elems vs"
| "exact (JObj kvs) = exact_members kvs"
| "exact_elems [] = True"
| "exact_elems (v # vs) = (exact v \<and> exact_elems vs)"
| "exact_members [] = True"
| "exact_members ((k, v) # kvs) = (exact v \<and> exact_members kvs)"

text \<open>A bound on the nesting of calls that reading a value back takes.\<close>

fun depth :: "json \<Rightarrow> nat"
  and depth_elems :: "json list \<Rightarrow> nat"
  and depth_members :: "(jsstring \<times> json) list \<Rightarrow> nat"
where
  "depth JNull = 1"
| "depth (JBool b) = 1"
| "depth (JNum n) = 1"
| "depth (JReal s) = 1"
| "depth (JStr s) = 1"
| "depth (JArr vs) = 1 + depth_elems vs"
| "depth (JObj kvs) = 1 + depth_members kvs"
| "depth_elems [] = 0"
| "depth_elems (v # vs) = 1 + depth v + depth_elems vs"
| "depth_members [] = 0"
| "depth_members ((k, v) # kvs) = 1 + depth v + depth_members kvs"

text \<open>What a date, a message and a transcript come back as after they were written to
  local storage and loaded again: a date that is not valid is written as null, and
  \<open>new Date(null)\<close> is the epoch.\<close>

definition reloadedDate :: "Date \<Rightarrow> Date" where
  "reloadedDate d = (if validDate d then d else TimeValue 0)"

definition reloadedMessage :: "Message \<Rightarrow> Message" where
  "reloadedMessage m = m\<lparr>timestamp := reloadedDate (timestamp m)\<rparr>"

definition reloadedChat :: "ChatHistory \<Rightarrow> ChatHistory" where
  "reloadedChat c =
    c\<lparr>createdAt := reloadedDate (createdAt c), messages := map reloadedMessage (messages c)\<rparr>"

text \<open>Equality of strings up to the case of ASCII letters: the same length, and at each
  position the same code unit or the capital and the small form of one ASCII letter.\<close>

definition sameLetter :: "16 word \<Rightarrow> 16 word \<Rightarrow> bool" where
  "sameLetter x y \<longleftrightarrow>
     x = y \<or> (0x41 \<le> x \<and> x \<le> 0x5A \<and> y = x + 0x20) \<or> (0x41 \<le> y \<and> y \<le> 0x5A \<and> x = y + 0x20)"

definition equalsIgnoreCase :: "jsstring \<Rightarrow> jsstring \<Rightarrow> bool" where
  "equalsIgnoreCase a b = list_all2 sameLetter a b"

section \<open>Example inputs\<close>

text \<open>A freshly loaded chat page of a user with the given role and count, with \<open>msg\<close>
  in the input field, and a turn whose clock readings are fixed.\<close>

definition example_world :: "jsstring \<Rightarrow> int \<Rightarrow> jsstring \<Rightarrow> World" where
  "example_world r q msg =
    \<lparr>user = Some \<lparr>username = r, role = r, questionsToday = q\<rparr>,
     currentMessage = msg, chatHistory = [], activeChat = None, currentMessages = [],
     isLoading = False, localStorage = Map.empty, cookies = Map.empty,
     location = js ''/chat'', toasts = []\<rparr>"

definition example_env :: TimerEnv where
  "example_env =
    \<lparr>now_botId = 2500, now_botStamp = 2500, random_reply = 2, now_chatId = 2500,
     random_chatId = js ''k3j9x0q1z'', now_created = 2500\<rparr>"

definition example_turn :: "jsstring \<Rightarrow> TurnInput" where
  "example_turn b = \<lparr>body = b, now_userId = 1000, now_userStamp = 1000, timerEnv = example_env\<rparr>"

definition example_browser :: World where
  "example_browser =
    (example_world (js ''viewer'') 3 [])
      \<lparr>localStorage := [js ''user'' \<mapsto> js ''{}'', js ''chatHistory_viewer'' \<mapsto> js ''[]''],
       cookies := [TOKEN_KEY \<mapsto> js ''t0k3n'']\<rparr>"

definition one_turn :: "bool \<times> World" where
  "one_turn = turn (example_turn (js ''first question'')) (example_world (js ''viewer'') 0 [])"

definition two_turns :: "bool list \<times> World" where
  "two_turns = turns [example_turn (js ''first question''), example_turn (js ''second question'')]
      (example_world (js ''viewer'') 0 [])"

text \<open>A browser in which the page has not been loaded yet, with the given entries in
  local storage; and a session blob as the login page writes it.\<close>

definition example_stored :: "(jsstring \<times> jsstring) list \<Rightarrow> World" where
  "example_stored kvs =
    \<lparr>user = None, currentMessage = [], chatHistory = [], activeChat = None,
     currentMessages = [], isLoading = False, localStorage = map_of kvs,
     cookies = Map.empty, location = js ''/chat'', toasts = []\<rparr>"

definition example_user_blob :: jsstring where
  "example_user_blob = js ''{\"username\":\"viewer\",\"role\":\"viewer\",\"questionsToday\":3}''"

text \<open>A transcript list as the timer callback makes it.\<close>

definition example_history :: "ChatHistory list" where
  "example_history =
    [\<lparr>chat_id = js ''chat-2500-k3j9x0q1z'', title = js ''first question'',
      messages =
        [\<lparr>msg_id = js ''1000'', content = js ''first question'', isBot = False,
          timestamp = TimeValue 1000\<rparr>,
         \<lparr>msg_id = js ''2501'', content = js ''I can help you with that.'', isBot = True,
          timestamp = TimeValue 2500\<rparr>],
      createdAt = TimeValue 1793707200123\<rparr>]"

text \<open>The closure of a send of a message of 31 code units in a new conversation.\<close>

definition example_pending :: Pending where
  "example_pending =
    \<lparr>p_userMessage = \<lparr>msg_id = js ''1000'', content = replicate 31 0x61, isBot = False,
                       timestamp = TimeValue 1000\<rparr>,
     p_updatedMessages = [\<lparr>msg_id = js ''1000'', content = replicate 31 0x61, isBot = False,
                           timestamp = TimeValue 1000\<rparr>],
     p_activeChat = None, p_chatHistory = [], p_username = js ''viewer''\<rparr>"

text \<open>A stand-in for the lowercasing of strings with code units above 127: it knows
  U+00C0 and the ASCII letters only.\<close>

definition example_unicodeLower :: "jsstring \<Rightarrow> jsstring" where
  "example_unicodeLower s = map (\<lambda>c. if c = 0xC0 then 0xE0 else asciiLower c) s"

text \<open>
  A run in which a transcript is opened while a reply is pending. A first conversation
  ("question a"), New Chat, a second conversation ("question b"): \<open>two_chats\<close>. Then the
  first transcript is opened from the sidebar, "late" is sent in it, the second
  transcript is opened during the 1500 ms, and the timer fires: \<open>stale_timer\<close>. Then one
  more turn, "next": \<open>stale_timer_next\<close>.
\<close>

definition example_env_b :: TimerEnv where
  "example_env_b =
    \<lparr>now_botId = 6500, now_botStamp = 6500, random_reply = 2, now_chatId = 6500,
     random_chatId = js ''b7c2m4x8p'', now_created = 6500\<rparr>"

definition two_chats :: World where
  "two_chats =
    snd (turn \<lparr>body = js ''question b'', now_userId = 5000, now_userStamp = 5000,
               timerEnv = example_env_b\<rparr>
      (startNewChat
        (snd (turn (example_turn (js ''question a'')) (example_world (js ''viewer'') 0 [])))))"

definition stale_timer :: World where
  "stale_timer =
    (case handleSendMessage 8000 8000
            ((loadChat (js ''chat-2500-k3j9x0q1z'') two_chats)\<lparr>currentMessage := js ''late''\<rparr>) of
       (w, None) \<Rightarrow> w
     | (w, Some p) \<Rightarrow>
         handleSendMessage_timeout
           \<lparr>now_botId = 9500, now_botStamp = 9500, random_reply = 2, now_chatId = 9500,
            random_chatId = js ''q1w2e3r4t'', now_created = 9500\<rparr>
           p (loadChat (js ''chat-6500-b7c2m4x8p'') w))"

definition stale_timer_next :: "bool \<times> World" where
  "stale_timer_next =
    turn \<lparr>body = js ''next'', now_userId = 11000, now_userStamp = 11000,
          timerEnv = \<lparr>now_botId = 12500, now_botStamp = 12500, random_reply = 2,
                      now_chatId = 12500, random_chatId = js ''z9y8x7w6v'', now_created = 12500\<rparr>\<rparr>
      stale_timer"

section \<open>\<open>JSON.parse\<close> reads back what \<open>JSON.stringify\<close> writes\<close>

lemma unat_of_nat16: "n < 65536 \<Longrightarrow> unat (of_nat n :: 16 word) = n"
  by (simp only: unat_of_nat) simp

lemma unat_digit: "d < 10 \<Longrightarrow> unat (digit d) = 48 + d"
  unfolding digit_def by (rule unat_of_nat16) simp

lemma isDigit_digit: "d < 10 \<Longrightarrow> isDigit (digit d)"
  by (simp add: isDigit_def word_le_nat_alt unat_digit)

lemma digitVal_digit: "d < 10 \<Longrightarrow> digitVal (digit d) = d"
  by (simp add: digitVal_def unat_digit)

lemma digit_neq:
  "d < 10 \<Longrightarrow> digit d \<noteq> 0x2D" "d < 10 \<Longrightarrow> digit d \<noteq> 0x2B"
  by (auto dest!: arg_cong [where f = unat] simp: unat_digit)

lemma digit_eq_zero: "d < 10 \<Longrightarrow> digit d = 0x30 \<longleftrightarrow> d = 0"
  by (auto dest!: arg_cong [where f = unat] simp: unat_digit) (simp add: digit_def)

lemma natToString_small: "n < 10 \<Longrightarrow> natToString n = [digit n]"
  by (simp add: natToString.simps)

lemma natToString_big: "10 \<le> n \<Longrightarrow> natToString n = natToString (n div 10) @ [digit (n mod 10)]"
  by (subst natToString.simps) simp

lemma natToString_nonempty: "natToString n \<noteq> []"
  by (subst natToString.simps) simp

lemma natToString_digits: "list_all isDigit (natToString n)"
  by (induction n rule: natToString.induct) (subst natToString.simps, simp add: isDigit_digit)

lemma digitsVal_snoc: "digitsVal (ds @ [c]) = 10 * digitsVal ds + digitVal c"
  by (simp add: digitsVal_def)

lemma digitsVal_natToString: "digitsVal (natToString n) = n"
proof (induction n rule: natToString.induct)
  case (1 n)
  show ?case
  proof (cases "n < 10")
    case True
    then show ?thesis by (simp add: natToString_small digitsVal_def digitVal_digit)
  next
    case False
    with 1 show ?thesis
      by (simp add: natToString_big digitsVal_snoc digitVal_digit)
  qed
qed

lemma natToString_hd: "0 < n \<Longrightarrow> hd (natToString n) \<noteq> 0x30"
proof (induction n rule: natToString.induct)
  case (1 n)
  show ?case
  proof (cases "n < 10")
    case True
    with 1 show ?thesis by (simp add: natToString_small digit_eq_zero)
  next
    case False
    with 1 show ?thesis
      by (simp add: natToString_big natToString_nonempty)
  qed
qed

lemma natToString_length: "1 < length (natToString n) \<Longrightarrow> 0 < n"
  by (cases "n < 10") (auto simp: natToString_small)


lemma delimited_simps [simp]:
  "delimited []" "delimited (0x2C # r)" "delimited (0x5D # r)" "delimited (0x7D # r)"
  by (simp_all add: delimited_def)

lemma delimited_cases:
  assumes "delimited rest"
  obtains "rest = []" | c r where "rest = c # r" "\<not> isDigit c" "c \<noteq> 0x2E" "c \<noteq> 0x65" "c \<noteq> 0x45"
    "\<not> isJsonWS c"
  using assms by (cases rest) (auto simp: delimited_def isDigit_def isJsonWS_def)

lemma digits_then_rest:
  assumes "delimited rest"
  shows "takeWhile isDigit (natToString k @ rest) = natToString k"
    and "dropWhile isDigit (natToString k @ rest) = rest"
proof -
  have d: "\<And>x. x \<in> set (natToString k) \<Longrightarrow> isDigit x"
    using natToString_digits [of k] by (simp add: list_all_iff)
  have "takeWhile isDigit rest = [] \<and> dropWhile isDigit rest = rest"
    using assms by (cases rule: delimited_cases) auto
  then show "takeWhile isDigit (natToString k @ rest) = natToString k"
    and "dropWhile isDigit (natToString k @ rest) = rest"
    using d by simp_all
qed

lemma natToString_Cons: "\<exists>c r. natToString k = c # r \<and> isDigit c \<and> c \<noteq> 0x2D"
proof -
  obtain c r where cr: "natToString k = c # r"
    using natToString_nonempty [of k] by (cases "natToString k") auto
  moreover have "isDigit c"
    using natToString_digits [of k] cr by simp
  moreover from this have "c \<noteq> 0x2D"
    by (auto simp: isDigit_def)
  ultimately show ?thesis by blast
qed

lemma no_leading_zero: "Suc 0 < length (natToString k) \<Longrightarrow> hd (natToString k) \<noteq> 0x30"
  using natToString_hd [of k] natToString_length [of k] by simp

lemma no_fraction: "delimited rest \<Longrightarrow> parse_fraction rest = (None, rest)"
  by (erule delimited_cases) (auto simp: parse_fraction_def)

lemma no_exponent: "delimited rest \<Longrightarrow> parse_exponent rest = (None, rest)"
  by (erule delimited_cases) (auto simp: parse_exponent_def)

lemma parse_number_nat:
  assumes "delimited rest"
  shows "parse_number (natToString k @ rest) = Some (JNum (int k), rest)"
proof -
  obtain c r where cr: "natToString k = c # r" "c \<noteq> 0x2D"
    using natToString_Cons [of k] by blast
  have a: "parse_sign (natToString k @ rest) = (False, natToString k @ rest)"
    by (simp add: cr parse_sign_def)
  show ?thesis
    unfolding parse_number_def a
    by (simp add: digits_then_rest [OF assms] no_fraction [OF assms] no_exponent [OF assms]
        Let_def natToString_nonempty no_leading_zero digitsVal_natToString)
qed

lemma parse_number_neg:
  assumes "delimited rest"
  shows "parse_number (0x2D # natToString k @ rest) = Some (JNum (- int k), rest)"
proof -
  have a: "parse_sign (0x2D # natToString k @ rest) = (True, natToString k @ rest)"
    by (simp add: parse_sign_def)
  show ?thesis
    unfolding parse_number_def a
    by (simp add: digits_then_rest [OF assms] no_fraction [OF assms] no_exponent [OF assms]
        Let_def natToString_nonempty no_leading_zero digitsVal_natToString)
qed

lemma parse_number_roundtrip:
  "delimited rest \<Longrightarrow> parse_number (Number_toString n @ rest) = Some (JNum n, rest)"
  by (simp add: Number_toString_def parse_number_nat parse_number_neg)

lemma hexVal_hexdigit: "d < 16 \<Longrightarrow> hexVal (hexdigit d) = Some d"
proof (cases "d < 10")
  case True
  then have "unat (of_nat (48 + d) :: 16 word) = 48 + d"
    by (intro unat_of_nat16) simp
  with True show ?thesis
    by (simp add: hexVal_def hexdigit_def word_le_nat_alt del: of_nat_add)
next
  case False
  assume "d < 16"
  then have "unat (of_nat (87 + d) :: 16 word) = 87 + d"
    by (intro unat_of_nat16) simp
  with False \<open>d < 16\<close> show ?thesis
    by (simp add: hexVal_def hexdigit_def word_le_nat_alt del: of_nat_add)
qed

lemma hex_digits_sum:
  "4096 * (n div 4096) + 256 * (n div 256 mod 16) + 16 * (n div 16 mod 16) + n mod 16 = (n::nat)"
proof -
  have a: "n div 256 = n div 16 div 16" "n div 4096 = n div 16 div 16 div 16"
    by (simp_all add: div_mult2_eq)
  define q1 where "q1 = n div 16"
  define q2 where "q2 = q1 div 16"
  define q3 where "q3 = q2 div 16"
  have 1: "n = 16 * q1 + n mod 16" unfolding q1_def by simp
  have 2: "q1 = 16 * q2 + q1 mod 16" unfolding q2_def by simp
  have 3: "q2 = 16 * q3 + q2 mod 16" unfolding q3_def by simp
  have "4096 * q3 + 256 * (q2 mod 16) + 16 * (q1 mod 16) + n mod 16 = n"
    using 1 2 3 by linarith
  then show ?thesis
    by (simp add: a q1_def q2_def q3_def)
qed

lemma unat_lt16: "unat (c :: 16 word) < 65536"
  using unsigned_less [of c, where 'a = nat] by simp

lemma parse_unicodeEscape:
  "parse_chars (unicodeEscape c @ r) = consFst c (parse_chars r)"
proof -
  have n: "unat c < 65536" by (rule unat_lt16)
  then have d: "unat c div 4096 < 16" by simp
  have "of_nat (4096 * (unat c div 4096) + 256 * (unat c div 256 mod 16) +
      16 * (unat c div 16 mod 16) + unat c mod 16) = c"
    by (simp only: hex_digits_sum) simp
  then show ?thesis
    by (simp add: unicodeEscape_def hexVal_hexdigit d)
qed

lemma parse_raw:
  "c \<noteq> 0x22 \<Longrightarrow> c \<noteq> 0x5C \<Longrightarrow> \<not> c < 0x20 \<Longrightarrow> parse_chars (c # r) = consFst c (parse_chars r)"
  by simp

lemma parse_escapeUnit:
  "parse_chars (escapeUnit c @ r) = consFst c (parse_chars r)"
  by (simp add: escapeUnit_def parse_unicodeEscape unescape_def)

lemma surrogate_raw:
  "isHighSurrogate c \<or> isLowSurrogate c \<Longrightarrow> c \<noteq> 0x22 \<and> c \<noteq> 0x5C \<and> \<not> c < 0x20"
  by (auto simp: isHighSurrogate_def isLowSurrogate_def word_le_nat_alt word_less_nat_alt)

lemma parse_quoteBody:
  "parse_chars (quoteBody s @ 0x22 # rest) = Some (s, rest)"
proof (induction s rule: quoteBody.induct)
  case 1
  show ?case by simp
next
  case (2 c)
  have e: "parse_chars (0x22 # rest) = Some ([], rest)" by simp
  show ?case
    by (simp only: quoteBody.simps append_Cons append_Nil parse_unicodeEscape parse_escapeUnit e
        consFst_def split: if_split) simp
next
  case (3 c d cs)
  show ?case
  proof (cases "isHighSurrogate c \<and> isLowSurrogate d")
    case True
    then have "parse_chars (c # d # quoteBody cs @ 0x22 # rest) =
        consFst c (consFst d (parse_chars (quoteBody cs @ 0x22 # rest)))"
      using surrogate_raw [of c] surrogate_raw [of d] by simp
    with True 3 show ?thesis by (simp add: consFst_def)
  next
    case False
    with 3 show ?thesis
      by (auto simp add: parse_unicodeEscape parse_escapeUnit consFst_def
          simp del: parse_chars.simps)
  qed
qed

lemma skipWS_Cons: "\<not> isJsonWS c \<Longrightarrow> skipWS (c # r) = c # r"
  by (simp add: skipWS_def)

lemma Number_toString_Cons:
  "\<exists>c r. Number_toString n = c # r \<and> (c = 0x2D \<or> isDigit c)"
  using natToString_Cons [of "nat n"] by (auto simp: Number_toString_def)

lemma number_start:
  "c = 0x2D \<or> isDigit c \<Longrightarrow>
   \<not> isJsonWS c \<and> c \<noteq> 0x7B \<and> c \<noteq> 0x5B \<and> c \<noteq> 0x22 \<and> c \<noteq> 0x5D \<and> c \<noteq> 0x7D"
  by (auto simp: isDigit_def isJsonWS_def)

lemma starts_value:
  "exact v \<Longrightarrow> \<exists>c r. JSON_stringify v = c # r \<and> \<not> isJsonWS c \<and> c \<noteq> 0x5D \<and> c \<noteq> 0x7D"
proof (cases v)
  case (JNum n)
  then show ?thesis
    using Number_toString_Cons [of n] number_start by auto
qed (auto simp: js_def isJsonWS_def QuoteJSONString_def)

lemma starts_elems:
  "vs \<noteq> [] \<Longrightarrow> exact_elems vs \<Longrightarrow>
   \<exists>c r. stringify_elems vs = c # r \<and> \<not> isJsonWS c \<and> c \<noteq> 0x5D"
proof (cases vs)
  case Nil
  assume "vs \<noteq> []"
  with Nil show ?thesis by simp
next
  case (Cons v ws)
  assume "exact_elems vs"
  with Cons obtain c r where "JSON_stringify v = c # r" "\<not> isJsonWS c" "c \<noteq> 0x5D"
    using starts_value [of v] by auto
  with Cons show ?thesis by (cases ws) auto
qed

lemma starts_members:
  "kvs \<noteq> [] \<Longrightarrow> \<exists>r. stringify_members kvs = 0x22 # r"
proof (cases kvs)
  case Nil
  assume "kvs \<noteq> []"
  with Nil show ?thesis by simp
next
  case (Cons kv ws)
  then show ?thesis by (cases kv; cases ws) (auto simp: QuoteJSONString_def)
qed

lemma parse_literals:
  "parse_literal (js ''null'' @ rest) = Some (JNull, rest)"
  "parse_literal (js ''true'' @ rest) = Some (JBool True, rest)"
  "parse_literal (js ''false'' @ rest) = Some (JBool False, rest)"
  by (simp_all add: parse_literal_def js_def)

lemma parse_value_literal:
  "parse_value (Suc n) (js ''null'' @ rest) = Some (JNull, rest)"
  "parse_value (Suc n) (js ''true'' @ rest) = Some (JBool True, rest)"
  "parse_value (Suc n) (js ''false'' @ rest) = Some (JBool False, rest)"
  using parse_literals [of rest]
  by (simp_all add: js_def skipWS_def isJsonWS_def isDigit_def)

lemma parse_value_number:
  assumes "delimited rest"
  shows "parse_value (Suc n) (Number_toString k @ rest) = Some (JNum k, rest)"
proof -
  obtain c r where cr: "Number_toString k = c # r" "c = 0x2D \<or> isDigit c"
    using Number_toString_Cons [of k] by blast
  have "parse_value (Suc n) ((c # r) @ rest) = parse_number ((c # r) @ rest)"
    using number_start [OF cr(2)] cr(2) by (simp add: skipWS_Cons)
  then show ?thesis
    using parse_number_roundtrip [OF assms, of k] by (simp add: cr)
qed

lemma parse_value_string:
  "parse_value (Suc n) (QuoteJSONString s @ rest) = Some (JStr s, rest)"
  by (simp add: QuoteJSONString_def skipWS_def isJsonWS_def parse_quoteBody
      del: parse_chars.simps)

lemma parse_value_array:
  assumes "vs \<noteq> []" "exact_elems vs"
    and "parse_elems n (stringify_elems vs @ 0x5D # rest) = Some (vs, rest)"
  shows "parse_value (Suc n) (JSON_stringify (JArr vs) @ rest) = Some (JArr vs, rest)"
proof -
  obtain c r where cr: "stringify_elems vs = c # r" "\<not> isJsonWS c" "c \<noteq> 0x5D"
    using starts_elems [OF assms(1,2)] by blast
  have "skipWS (stringify_elems vs @ 0x5D # rest) = c # r @ 0x5D # rest"
    by (simp add: cr skipWS_Cons)
  then show ?thesis
    using assms(3) cr(3) by (simp add: skipWS_def isJsonWS_def)
qed

lemma parse_value_object:
  assumes "kvs \<noteq> []"
    and "parse_members n (stringify_members kvs @ 0x7D # rest) = Some (kvs, rest)"
  shows "parse_value (Suc n) (JSON_stringify (JObj kvs) @ rest) = Some (JObj kvs, rest)"
proof -
  obtain r where cr: "stringify_members kvs = 0x22 # r"
    using starts_members [OF assms(1)] by blast
  have "skipWS (stringify_members kvs @ 0x7D # rest) = 0x22 # r @ 0x7D # rest"
    by (simp add: cr skipWS_def isJsonWS_def)
  then show ?thesis
    using assms(2) by (simp add: skipWS_def isJsonWS_def)
qed

lemma parse_value_empty:
  "parse_value (Suc n) (JSON_stringify (JArr []) @ rest) = Some (JArr [], rest)"
  "parse_value (Suc n) (JSON_stringify (JObj []) @ rest) = Some (JObj [], rest)"
  by (simp_all add: skipWS_def isJsonWS_def)

lemma parse_elems_step:
  assumes "parse_value n (JSON_stringify v @ c # rest) = Some (v, c # rest)"
  shows "c = 0x5D \<Longrightarrow> parse_elems (Suc n) (JSON_stringify v @ c # rest) = Some ([v], rest)"
    and "c = 0x2C \<Longrightarrow> parse_elems (Suc n) (JSON_stringify v @ c # rest) =
      consFst v (parse_elems n rest)"
  using assms by (simp_all add: skipWS_def isJsonWS_def)

lemma parse_members_step:
  assumes "parse_value n (JSON_stringify v @ c # rest) = Some (v, c # rest)"
  shows "c = 0x7D \<Longrightarrow>
      parse_members (Suc n) (QuoteJSONString k @ 0x3A # JSON_stringify v @ c # rest) =
      Some ([(k, v)], rest)"
    and "c = 0x2C \<Longrightarrow>
      parse_members (Suc n) (QuoteJSONString k @ 0x3A # JSON_stringify v @ c # rest) =
      consFst (k, v) (parse_members n rest)"
  using assms
  by (simp_all add: skipWS_def isJsonWS_def QuoteJSONString_def parse_quoteBody
      del: parse_chars.simps)

lemma parse_stringify:
  "exact v \<Longrightarrow> depth v \<le> n \<Longrightarrow> delimited rest \<Longrightarrow>
     parse_value n (JSON_stringify v @ rest) = Some (v, rest)"
  "vs \<noteq> [] \<Longrightarrow> exact_elems vs \<Longrightarrow> depth_elems vs \<le> n \<Longrightarrow>
     parse_elems n (stringify_elems vs @ 0x5D # rest) = Some (vs, rest)"
  "kvs \<noteq> [] \<Longrightarrow> exact_members kvs \<Longrightarrow> depth_members kvs \<le> n \<Longrightarrow>
     parse_members n (stringify_members kvs @ 0x7D # rest) = Some (kvs, rest)"
proof (induction v and vs and kvs arbitrary: n rest and n rest and n rest
    rule: JSON_stringify_stringify_elems_stringify_members.induct)
  case 1
  then obtain m where "n = Suc m" by (cases n) auto
  then show ?case by (simp add: parse_value_literal del: parse_value.simps)
next
  case (2 b)
  then obtain m where "n = Suc m" by (cases n) auto
  then show ?case by (simp add: parse_value_literal del: parse_value.simps)
next
  case (3 k)
  then obtain m where "n = Suc m" by (cases n) auto
  with 3 show ?case by (simp add: parse_value_number del: parse_value.simps)
next
  case (4 s)
  then show ?case by simp
next
  case (5 s)
  then obtain m where "n = Suc m" by (cases n) auto
  then show ?case by (simp add: parse_value_string del: parse_value.simps)
next
  case (6 vs)
  then obtain m where m: "n = Suc m" by (cases n) auto
  show ?case
  proof (cases "vs = []")
    case True
    then show ?thesis unfolding m by (simp only: parse_value_empty)
  next
    case False
    have "parse_elems m (stringify_elems vs @ 0x5D # rest) = Some (vs, rest)"
      using 6 False m by (intro "6.IH") simp_all
    then show ?thesis
      unfolding m using False 6 by (intro parse_value_array) simp_all
  qed
next
  case (7 kvs)
  then obtain m where m: "n = Suc m" by (cases n) auto
  show ?case
  proof (cases "kvs = []")
    case True
    then show ?thesis unfolding m by (simp only: parse_value_empty)
  next
    case False
    have "parse_members m (stringify_members kvs @ 0x7D # rest) = Some (kvs, rest)"
      using 7 False m by (intro "7.IH") simp_all
    then show ?thesis
      unfolding m using False by (intro parse_value_object) simp_all
  qed
next
  case 8
  then show ?case by simp
next
  case (9 v)
  then obtain m where m: "n = Suc m" by (cases n) auto
  have "parse_value m (JSON_stringify v @ 0x5D # rest) = Some (v, 0x5D # rest)"
    using 9 m by (intro "9.IH") simp_all
  then show ?case
    unfolding m by (simp add: parse_elems_step(1) del: parse_elems.simps)
next
  case (10 v w vs)
  then obtain m where m: "n = Suc m" by (cases n) auto
  let ?rest = "stringify_elems (w # vs) @ 0x5D # rest"
  have v: "parse_value m (JSON_stringify v @ 0x2C # ?rest) = Some (v, 0x2C # ?rest)"
    using 10 m by (intro "10.IH"(1)) simp_all
  have "parse_elems m ?rest = Some (w # vs, rest)"
    using 10 m by (intro "10.IH"(2)) simp_all
  then show ?case
    unfolding m using parse_elems_step(2) [OF v]
    by (simp add: consFst_def del: parse_elems.simps)
next
  case 11
  then show ?case by simp
next
  case (12 k v)
  then obtain m where m: "n = Suc m" by (cases n) auto
  have "parse_value m (JSON_stringify v @ 0x7D # rest) = Some (v, 0x7D # rest)"
    using 12 m by (intro "12.IH") simp_all
  then show ?case
    unfolding m using parse_members_step(1) [of m v "0x7D" rest k]
    by (simp del: parse_members.simps)
next
  case (13 k v kv kvs)
  then obtain m where m: "n = Suc m" by (cases n) auto
  let ?rest = "stringify_members (kv # kvs) @ 0x7D # rest"
  have v: "parse_value m (JSON_stringify v @ 0x2C # ?rest) = Some (v, 0x2C # ?rest)"
    using 13 m by (intro "13.IH"(1)) simp_all
  have "parse_members m ?rest = Some (kv # kvs, rest)"
    using 13 m by (intro "13.IH"(2)) simp_all
  then show ?case
    unfolding m using parse_members_step(2) [OF v, of k]
    by (simp add: consFst_def del: parse_members.simps)
qed

lemma Number_toString_nonempty: "Number_toString n \<noteq> []"
  by (simp add: Number_toString_def natToString_nonempty)

lemma depth_le_length:
  "exact v \<Longrightarrow> depth v \<le> length (JSON_stringify v)"
  "exact_elems vs \<Longrightarrow> depth_elems vs \<le> Suc (length (stringify_elems vs))"
  "exact_members kvs \<Longrightarrow> depth_members kvs \<le> Suc (length (stringify_members kvs))"
proof (induction v and vs and kvs
    rule: JSON_stringify_stringify_elems_stringify_members.induct)
  case (3 n)
  then show ?case
    using Number_toString_nonempty [of n] by (cases "Number_toString n") simp_all
qed (auto simp: js_def QuoteJSONString_def)

lemma JSON_parse_stringify: "exact v \<Longrightarrow> JSON_parse (JSON_stringify v) = Some v"
proof -
  assume e: "exact v"
  have "parse_value (Suc (length (JSON_stringify v))) (JSON_stringify v @ []) = Some (v, [])"
    using e depth_le_length(1) [OF e] by (intro parse_stringify(1)) simp_all
  then show ?thesis
    by (simp add: JSON_parse_def skipWS_def del: parse_value.simps)
qed

section \<open>\<open>Date.parse\<close> reads back what \<open>toISOString\<close> writes\<close>

lemma int_div_bounds:
  fixes a k :: int
  assumes "0 < k"
  shows "k * (a div k) \<le> a" and "a < k * (a div k) + k"
proof -
  have e: "k * (a div k) = a - a mod k"
    by (simp add: minus_mod_eq_mult_div)
  show "k * (a div k) \<le> a"
    unfolding e using pos_mod_sign [OF assms, of a] by simp
  show "a < k * (a div k) + k"
    unfolding e using pos_mod_bound [OF assms, of a] by simp
qed

lemma daysBeforeYear_step:
  "daysBeforeYear (i + 1) \<le> daysBeforeYear i + 366"
proof -
  have "(i + 1) div 4 \<le> i div 4 + 1" by linarith
  moreover have "i div 100 \<le> (i + 1) div 100" by (rule zdiv_mono1) simp_all
  ultimately show ?thesis by (simp add: daysBeforeYear_def)
qed

lemma yearOfEra_bounds:
  assumes "0 \<le> doe" "doe \<le> 146096"
  shows "0 \<le> yearOfEra doe \<and> yearOfEra doe \<le> 399 \<and>
         daysBeforeYear (yearOfEra doe) \<le> doe \<and> doe \<le> daysBeforeYear (yearOfEra doe) + 365"
proof (cases "find (\<lambda>i. doe < daysBeforeYear (i + 1)) (map int [0..<399])")
  case None
  have "(398 :: int) \<in> set (map int [0..<399])"
    by (simp only: set_map set_upt) (rule image_eqI [where x = 398], simp_all)
  with None have "\<not> doe < daysBeforeYear (398 + 1)"
    unfolding find_None_iff by blast
  then have "145731 \<le> doe" by (simp add: daysBeforeYear_def)
  with None assms show ?thesis
    by (simp add: yearOfEra_def daysBeforeYear_def)
next
  case (Some y)
  then obtain i where i: "i < 399" "y = int i" "doe < daysBeforeYear (int i + 1)"
    "\<forall>j<i. \<not> doe < daysBeforeYear (int j + 1)"
    unfolding find_Some_iff by auto
  have lo: "daysBeforeYear (int i) \<le> doe"
  proof (cases i)
    case 0
    with assms show ?thesis by (simp add: daysBeforeYear_def)
  next
    case (Suc j)
    with i(4) have "\<not> doe < daysBeforeYear (int j + 1)" by simp
    with Suc show ?thesis by (simp add: add.commute)
  qed
  have "daysBeforeYear (int i + 1) \<le> daysBeforeYear (int i) + 366"
    by (rule daysBeforeYear_step)
  with i(3) have hi: "doe \<le> daysBeforeYear (int i) + 365"
    by simp
  from Some i lo hi show ?thesis
    by (simp add: yearOfEra_def)
qed

lemma month_day_bounds:
  fixes doy :: int
  assumes "0 \<le> doy" "doy \<le> 365"
  defines "mp \<equiv> (5 * doy + 2) div 153"
  shows "0 \<le> mp \<and> mp \<le> 11 \<and> 0 \<le> doy - (153 * mp + 2) div 5 \<and>
         doy - (153 * mp + 2) div 5 \<le> 30"
proof -
  define r where "r = (153 * mp + 2) div 5"
  have q: "153 * mp \<le> 5 * doy + 2" "5 * doy + 2 < 153 * mp + 153"
    unfolding mp_def using int_div_bounds [of 153 "5 * doy + 2"] by simp_all
  have r: "5 * r \<le> 153 * mp + 2" "153 * mp + 2 < 5 * r + 5"
    unfolding r_def using int_div_bounds [of 5 "153 * mp + 2"] by simp_all
  have "0 \<le> mp" "mp \<le> 11" using q assms by linarith+
  moreover have "0 \<le> doy - r" "doy - r \<le> 30" using q r by linarith+
  ultimately show ?thesis by (simp add: r_def)
qed

lemma civil_from_days_props:
  assumes c: "civil_from_days z = (y, m, d)"
  shows "days_from_civil y (int m) (int d) = z"
    and "1 \<le> m" "m \<le> 12" "1 \<le> d" "d \<le> 31"
    and "400 * ((z + 719468) div 146097) \<le> y" "y \<le> 400 * ((z + 719468) div 146097) + 400"
proof -
  define era where "era = (z + 719468) div 146097"
  define doe where "doe = z + 719468 - era * 146097"
  define yoe where "yoe = yearOfEra doe"
  define doy where "doy = doe - daysBeforeYear yoe"
  define mp where "mp = (5 * doy + 2) div 153"
  define r where "r = (153 * mp + 2) div 5"
  define m' where "m' = (if mp < 10 then mp + 3 else mp - 9)"
  have doe: "0 \<le> doe" "doe \<le> 146096"
    unfolding doe_def era_def using int_div_bounds [of 146097 "z + 719468"] by simp_all
  note yb = yearOfEra_bounds [OF doe, folded yoe_def]
  have doy: "0 \<le> doy" "doy \<le> 365"
    unfolding doy_def using yb by simp_all
  note mb = month_day_bounds [OF doy, folded mp_def, folded r_def]
  have m': "1 \<le> m'" "m' \<le> 12"
    unfolding m'_def using mb by auto
  have y: "y = yoe + era * 400 + (if m' \<le> 2 then 1 else 0)"
    and m: "m = nat m'" and d: "d = nat (doy - r + 1)"
    using c unfolding civil_from_days_def Let_def era_def doe_def yoe_def doy_def mp_def r_def
      m'_def by simp_all
  show "1 \<le> m" "m \<le> 12" using m' m by simp_all
  show "1 \<le> d" "d \<le> 31" using mb d by linarith+
  show "400 * ((z + 719468) div 146097) \<le> y" "y \<le> 400 * ((z + 719468) div 146097) + 400"
    using yb y by (simp_all add: era_def)
  have im: "int m = m'" using m m' by simp
  have id: "int d = doy - r + 1" using d mb by linarith
  have e: "(yoe + era * 400) div 400 = era"
    using yb by simp
  have mp': "(if 2 < m' then m' - 3 else m' + 9) = mp"
    unfolding m'_def using mb by auto
  have "days_from_civil y m' (doy - r + 1) = era * 146097 + doe - 719468"
    unfolding days_from_civil_def Let_def y
    by (simp add: e mp' r_def [symmetric] doy_def)
  then show "days_from_civil y (int m) (int d) = z"
    by (simp add: im id doe_def)
qed

lemma natToString_length_le: "0 < w \<Longrightarrow> n < 10 ^ w \<Longrightarrow> length (natToString n) \<le> w"
proof (induction w arbitrary: n)
  case 0
  then show ?case by simp
next
  case (Suc w)
  show ?case
  proof (cases "n < 10")
    case True
    then show ?thesis by (simp add: natToString_small)
  next
    case False
    with Suc.prems have w: "0 < w" by (cases w) auto
    have "n div 10 < 10 ^ w" using Suc.prems by simp
    with Suc.IH [OF w] have "length (natToString (n div 10)) \<le> w" by blast
    with False show ?thesis by (simp add: natToString_big)
  qed
qed

lemma length_pad: "0 < w \<Longrightarrow> n < 10 ^ w \<Longrightarrow> length (pad w n) = w"
  using natToString_length_le [of w n] by (simp add: pad_def)

lemma digitsVal_zeros: "digitsVal (replicate k 0x30 @ ds) = digitsVal ds"
  by (induction k) (simp_all add: digitsVal_def digitVal_def)

lemma parse_digits_pad: "parse_digits (pad w n) = Some n"
proof -
  have "list_all isDigit (replicate (w - length (natToString n)) 0x30)"
    by (simp add: list_all_iff isDigit_def)
  then show ?thesis
    by (simp add: parse_digits_def pad_def natToString_nonempty natToString_digits
        digitsVal_zeros digitsVal_natToString)
qed

lemma pad2:
  assumes "n < 100"
  obtains a b where "pad 2 n = [a, b]" "parse_digits [a, b] = Some n"
proof -
  have "length (pad 2 n) = 2" using assms by (intro length_pad) simp_all
  then obtain a b where "pad 2 n = [a, b]"
    by (auto simp: length_Suc_conv eval_nat_numeral)
  with parse_digits_pad [of 2 n] that show ?thesis by simp
qed

lemma pad3:
  assumes "n < 1000"
  obtains a b c where "pad 3 n = [a, b, c]" "parse_digits [a, b, c] = Some n"
proof -
  have "length (pad 3 n) = 3" using assms by (intro length_pad) simp_all
  then obtain a b c where "pad 3 n = [a, b, c]"
    by (auto simp: length_Suc_conv eval_nat_numeral)
  with parse_digits_pad [of 3 n] that show ?thesis by simp
qed

lemma parse_digits_hd: "parse_digits (a # as) = Some n \<Longrightarrow> a \<noteq> 0x2B \<and> a \<noteq> 0x2D"
  by (auto simp: parse_digits_def isDigit_def split: if_splits)

lemma pad4:
  assumes "n < 10000"
  obtains a b c d where "pad 4 n = [a, b, c, d]" "parse_digits [a, b, c, d] = Some n"
    "a \<noteq> 0x2B" "a \<noteq> 0x2D"
proof -
  have "length (pad 4 n) = 4" using assms by (intro length_pad) simp_all
  then obtain a b c d where p: "pad 4 n = [a, b, c, d]"
    by (auto simp: length_Suc_conv eval_nat_numeral)
  with parse_digits_pad [of 4 n] have "parse_digits [a, b, c, d] = Some n" by simp
  with p parse_digits_hd [of a "[b, c, d]" n] that show ?thesis by blast
qed

lemma pad6:
  assumes "n < 1000000"
  obtains a b c d e f where "pad 6 n = [a, b, c, d, e, f]"
    "parse_digits [a, b, c, d, e, f] = Some n"
proof -
  have "length (pad 6 n) = 6" using assms by (intro length_pad) simp_all
  then obtain a b c d e f where "pad 6 n = [a, b, c, d, e, f]"
    by (auto simp: length_Suc_conv eval_nat_numeral)
  with parse_digits_pad [of 6 n] that show ?thesis by simp
qed

lemma Date_parse_year4:
  assumes "y1 \<noteq> 0x2B" "y1 \<noteq> 0x2D"
    and "parse_digits [y1, y2, y3, y4] = Some y"
    and "parse_digits [m1, m2] = Some mo" "parse_digits [d1, d2] = Some d"
    and "parse_digits [h1, h2] = Some h" "parse_digits [n1, n2] = Some mi"
    and "parse_digits [s1, s2] = Some sec" "parse_digits [f1, f2, f3] = Some ms"
    and "1 \<le> mo" "mo \<le> 12" "1 \<le> d" "d \<le> 31" "h \<le> 23" "mi \<le> 59" "sec \<le> 59"
  shows "Date_parse ([y1, y2, y3, y4] @ 0x2D # [m1, m2] @ 0x2D # [d1, d2] @ 0x54 #
       [h1, h2] @ 0x3A # [n1, n2] @ 0x3A # [s1, s2] @ 0x2E # [f1, f2, f3] @ [0x5A]) =
     Some (TimeClip (days_from_civil (int y) (int mo) (int d) * 86400000 +
                    int h * 3600000 + int mi * 60000 + int sec * 1000 + int ms))"
  using assms by (simp add: Date_parse_def)

lemma Date_parse_year6:
  assumes "sg = 0x2B \<or> sg = 0x2D"
    and "parse_digits [y1, y2, y3, y4, y5, y6] = Some y"
    and "parse_digits [m1, m2] = Some mo" "parse_digits [d1, d2] = Some d"
    and "parse_digits [h1, h2] = Some h" "parse_digits [n1, n2] = Some mi"
    and "parse_digits [s1, s2] = Some sec" "parse_digits [f1, f2, f3] = Some ms"
    and "1 \<le> mo" "mo \<le> 12" "1 \<le> d" "d \<le> 31" "h \<le> 23" "mi \<le> 59" "sec \<le> 59"
    and "sg = 0x2D \<longrightarrow> y \<noteq> 0"
  shows "Date_parse (sg # [y1, y2, y3, y4, y5, y6] @ 0x2D # [m1, m2] @ 0x2D # [d1, d2] @ 0x54 #
       [h1, h2] @ 0x3A # [n1, n2] @ 0x3A # [s1, s2] @ 0x2E # [f1, f2, f3] @ [0x5A]) =
     Some (TimeClip (days_from_civil ((if sg = 0x2D then - 1 else 1) * int y) (int mo) (int d) *
                    86400000 +
                    int h * 3600000 + int mi * 60000 + int sec * 1000 + int ms))"
  using assms by (auto simp add: Date_parse_def)

lemma time_within_day:
  fixes n :: nat
  shows "n div 3600000 * 3600000 + n div 60000 mod 60 * 60000 + n div 1000 mod 60 * 1000 +
         n mod 1000 = n"
proof -
  have a: "n div 60000 = n div 1000 div 60" "n div 3600000 = n div 1000 div 60 div 60"
    by (simp_all add: div_mult2_eq)
  define q1 where "q1 = n div 1000"
  define q2 where "q2 = q1 div 60"
  define q3 where "q3 = q2 div 60"
  have 1: "n = 1000 * q1 + n mod 1000" unfolding q1_def by simp
  have 2: "q1 = 60 * q2 + q1 mod 60" unfolding q2_def by simp
  have 3: "q2 = 60 * q3 + q2 mod 60" unfolding q3_def by simp
  have "q3 * 3600000 + q2 mod 60 * 60000 + q1 mod 60 * 1000 + n mod 1000 = n"
    using 1 2 3 by linarith
  then show ?thesis
    by (simp add: a q1_def q2_def q3_def)
qed

lemma year_range:
  fixes day y :: int
  assumes "- 100000000 \<le> day" "day \<le> 100000000"
    and "400 * ((day + 719468) div 146097) \<le> y" "y \<le> 400 * ((day + 719468) div 146097) + 400"
  shows "- 999999 \<le> y" "y \<le> 999999"
proof -
  define era where "era = (day + 719468) div 146097"
  have "146097 * era \<le> day + 719468" "day + 719468 < 146097 * era + 146097"
    unfolding era_def using int_div_bounds [of 146097 "day + 719468"] by simp_all
  with assms(1,2) have "- 1000 \<le> era" "era \<le> 1000" by linarith+
  with assms(3,4) show "- 999999 \<le> y" "y \<le> 999999"
    unfolding era_def [symmetric] by linarith+
qed

lemma Date_parse_toISOString:
  assumes "\<bar>t\<bar> \<le> 8640000000000000"
  shows "Date_parse (toISOString t) = Some (TimeValue t)"
proof -
  define day where "day = t div 86400000"
  define ms where "ms = nat (t mod 86400000)"
  obtain y m d where c: "civil_from_days day = (y, m, d)"
    by (cases "civil_from_days day") auto
  note cp = civil_from_days_props [OF c]
  have dayb: "- 100000000 \<le> day" "day \<le> 100000000"
    unfolding day_def using assms int_div_bounds [of 86400000 t] by linarith+
  note yr = year_range [OF dayb cp(6,7)]
  have msb: "ms < 86400000" "int ms = t mod 86400000"
    unfolding ms_def by simp_all
  have t: "day * 86400000 + int ms = t"
    unfolding day_def msb(2) by simp
  define h where "h = ms div 3600000"
  define mi where "mi = ms div 60000 mod 60"
  define sec where "sec = ms div 1000 mod 60"
  define f where "f = ms mod 1000"
  have hb: "h \<le> 23" "mi \<le> 59" "sec \<le> 59" "f < 1000"
    unfolding h_def mi_def sec_def f_def using msb(1) by simp_all
  have "h * 3600000 + mi * 60000 + sec * 1000 + f = ms"
    unfolding h_def mi_def sec_def f_def by (rule time_within_day)
  then have "int h * 3600000 + int mi * 60000 + int sec * 1000 + int f = int ms"
    by (metis (mono_tags, opaque_lifting) of_nat_add of_nat_mult of_nat_numeral)
  then have tv: "days_from_civil y (int m) (int d) * 86400000 +
      int h * 3600000 + int mi * 60000 + int sec * 1000 + int f = t"
    using t cp(1) by simp
  have clip: "TimeClip t = TimeValue t"
    using assms by (simp add: TimeClip_def)
  obtain m1 m2 where pm: "pad 2 m = [m1, m2]" "parse_digits [m1, m2] = Some m"
    using cp(3) by (auto intro: pad2 [of m])
  obtain d1 d2 where pd: "pad 2 d = [d1, d2]" "parse_digits [d1, d2] = Some d"
    using cp(5) by (auto intro: pad2 [of d])
  obtain h1 h2 where ph: "pad 2 h = [h1, h2]" "parse_digits [h1, h2] = Some h"
    using hb(1) by (auto intro: pad2 [of h])
  obtain n1 n2 where pn: "pad 2 mi = [n1, n2]" "parse_digits [n1, n2] = Some mi"
    using hb(2) by (auto intro: pad2 [of mi])
  obtain s1 s2 where ps: "pad 2 sec = [s1, s2]" "parse_digits [s1, s2] = Some sec"
    using hb(3) by (auto intro: pad2 [of sec])
  obtain f1 f2 f3 where pf: "pad 3 f = [f1, f2, f3]" "parse_digits [f1, f2, f3] = Some f"
    using hb(4) by (auto intro: pad3 [of f])
  have iso: "toISOString t = yearString y @ 0x2D # [m1, m2] @ 0x2D # [d1, d2] @ 0x54 #
       [h1, h2] @ 0x3A # [n1, n2] @ 0x3A # [s1, s2] @ 0x2E # [f1, f2, f3] @ [0x5A]"
    unfolding toISOString_def Let_def day_def [symmetric] ms_def [symmetric] c
    by (simp add: pm pd ph pn ps pf h_def [symmetric] mi_def [symmetric] sec_def [symmetric]
        f_def [symmetric])
  show ?thesis
  proof (cases "0 \<le> y \<and> y \<le> 9999")
    case True
    then obtain y1 y2 y3 y4 where py: "pad 4 (nat y) = [y1, y2, y3, y4]"
      "parse_digits [y1, y2, y3, y4] = Some (nat y)" "y1 \<noteq> 0x2B" "y1 \<noteq> 0x2D"
      by (auto intro: pad4 [of "nat y"])
    have ys: "yearString y = [y1, y2, y3, y4]"
      using True by (simp add: yearString_def py)
    have "Date_parse (toISOString t) =
      Some (TimeClip (days_from_civil (int (nat y)) (int m) (int d) * 86400000 +
                    int h * 3600000 + int mi * 60000 + int sec * 1000 + int f))"
      unfolding iso ys
      using py(3,4,2) pm(2) pd(2) ph(2) pn(2) ps(2) pf(2) cp(2,3,4,5) hb(1,2,3)
      by (rule Date_parse_year4)
    with True tv clip show ?thesis by simp
  next
    case False
    define sg :: "16 word" where "sg = (if y < 0 then 0x2D else 0x2B)"
    have sg: "sg = 0x2B \<or> sg = 0x2D" "sg = 0x2D \<longrightarrow> nat \<bar>y\<bar> \<noteq> 0"
      "(if sg = 0x2D then - 1 else 1) * int (nat \<bar>y\<bar>) = y"
      using False by (auto simp: sg_def)
    have "nat \<bar>y\<bar> < 1000000" using yr by linarith
    then obtain y1 y2 y3 y4 y5 y6 where py: "pad 6 (nat \<bar>y\<bar>) = [y1, y2, y3, y4, y5, y6]"
      "parse_digits [y1, y2, y3, y4, y5, y6] = Some (nat \<bar>y\<bar>)"
      by (auto intro: pad6 [of "nat \<bar>y\<bar>"])
    have ys: "yearString y = sg # [y1, y2, y3, y4, y5, y6]"
      using False by (auto simp add: yearString_def py sg_def)
    have "Date_parse (sg # [y1, y2, y3, y4, y5, y6] @ 0x2D # [m1, m2] @ 0x2D # [d1, d2] @ 0x54 #
       [h1, h2] @ 0x3A # [n1, n2] @ 0x3A # [s1, s2] @ 0x2E # [f1, f2, f3] @ [0x5A]) =
      Some (TimeClip (days_from_civil ((if sg = 0x2D then - 1 else 1) * int (nat \<bar>y\<bar>))
                      (int m) (int d) * 86400000 +
                    int h * 3600000 + int mi * 60000 + int sec * 1000 + int f))"
      using sg(1) py(2) pm(2) pd(2) ph(2) pn(2) ps(2) pf(2) cp(2,3,4,5) hb(1,2,3) sg(2)
      by (rule Date_parse_year6)
    then show ?thesis
      unfolding sg(3) using tv clip by (simp add: iso ys)
  qed
qed

section \<open>Transcripts and sessions through local storage\<close>

lemma new_Date_toJSON: "new_Date (Some (Date_toJSON d)) = Inr (reloadedDate d)"
  by (cases d)
    (simp_all add: new_Date_def Date_toJSON_def reloadedDate_def validDate_def
      Date_parse_toISOString)

lemma exact_Date_toJSON: "exact (Date_toJSON d)"
  by (simp add: Date_toJSON_def split: Date.splits)

lemma reviveMessage_toJSON: "reviveMessage (Message_toJSON m) = Inr (reloadedMessage m)"
proof -
  have k: "getProp [(js ''id'', a), (js ''content'', b), (js ''isBot'', c), (js ''timestamp'', e)]
      (js ''timestamp'') = Some e"
    "getProp [(js ''id'', a), (js ''content'', b), (js ''isBot'', c), (js ''timestamp'', e)]
      (js ''id'') = Some a"
    "getProp [(js ''id'', a), (js ''content'', b), (js ''isBot'', c), (js ''timestamp'', e)]
      (js ''content'') = Some b"
    "getProp [(js ''id'', a), (js ''content'', b), (js ''isBot'', c), (js ''timestamp'', e)]
      (js ''isBot'') = Some c" for a b c e
    by (simp_all add: getProp_def js_def)
  show ?thesis
    by (simp add: reviveMessage_def Message_toJSON_def k new_Date_toJSON reloadedMessage_def)
qed

lemma mapE_map:
  "(\<And>x. f (g x) = Inr (h x)) \<Longrightarrow> mapE f (map g xs) = Inr (map h xs)"
  by (induction xs) simp_all

lemma reviveChat_toJSON: "reviveChat (ChatHistory_toJSON c) = Inr (reloadedChat c)"
proof -
  have k: "getProp [(js ''id'', a), (js ''title'', b), (js ''messages'', m), (js ''createdAt'', e)]
      (js ''createdAt'') = Some e"
    "getProp [(js ''id'', a), (js ''title'', b), (js ''messages'', m), (js ''createdAt'', e)]
      (js ''id'') = Some a"
    "getProp [(js ''id'', a), (js ''title'', b), (js ''messages'', m), (js ''createdAt'', e)]
      (js ''title'') = Some b"
    "getProp [(js ''id'', a), (js ''title'', b), (js ''messages'', m), (js ''createdAt'', e)]
      (js ''messages'') = Some m" for a b m e
    by (simp_all add: getProp_def js_def)
  have m: "mapE reviveMessage (map Message_toJSON ms) = Inr (map reloadedMessage ms)" for ms
    by (rule mapE_map) (rule reviveMessage_toJSON)
  show ?thesis
    by (simp add: reviveChat_def ChatHistory_toJSON_def k new_Date_toJSON m reloadedChat_def)
qed

lemma reviveHistory_toJSON:
  "reviveHistory (JArr (map ChatHistory_toJSON h)) = Inr (map reloadedChat h)"
  by (simp add: reviveHistory_def mapE_map reviveChat_toJSON)

lemma exact_Message_toJSON: "exact (Message_toJSON m)"
  by (simp add: Message_toJSON_def exact_Date_toJSON)

lemma exact_elems_map: "(\<And>x. exact (f x)) \<Longrightarrow> exact_elems (map f xs)"
  by (induction xs) simp_all

lemma exact_ChatHistory_toJSON: "exact (ChatHistory_toJSON c)"
  by (simp add: ChatHistory_toJSON_def exact_Date_toJSON exact_elems_map exact_Message_toJSON)

lemma exact_history: "exact (JArr (map ChatHistory_toJSON h))"
  by (simp add: exact_elems_map exact_ChatHistory_toJSON)

lemma parse_history:
  "JSON_parse (JSON_stringify (JArr (map ChatHistory_toJSON h))) =
     Some (JArr (map ChatHistory_toJSON h))"
  by (rule JSON_parse_stringify) (rule exact_history)

lemma parse_user:
  "JSON_parse (JSON_stringify (UserData_toJSON u)) = Some (UserData_toJSON u)"
  by (rule JSON_parse_stringify) (simp add: UserData_toJSON_def)

lemma reloaded_valid:
  "validDate d \<Longrightarrow> reloadedDate d = d"
  by (simp add: reloadedDate_def)

lemma reloadedChat_fields:
  "chat_id (reloadedChat c) = chat_id c" "title (reloadedChat c) = title c"
  "map msg_id (messages (reloadedChat c)) = map msg_id (messages c)"
  "map content (messages (reloadedChat c)) = map content (messages c)"
  "map isBot (messages (reloadedChat c)) = map isBot (messages c)"
  by (simp_all add: reloadedChat_def reloadedMessage_def comp_def)

lemma reloadedChat_valid:
  assumes "validDate (createdAt c)" "\<forall>m\<in>set (messages c). validDate (timestamp m)"
  shows "reloadedChat c = c"
proof -
  have "map reloadedMessage (messages c) = messages c"
    using assms(2) by (induction "messages c" arbitrary: c)
      (auto simp: reloadedMessage_def reloaded_valid map_idI)
  with assms(1) show ?thesis
    by (simp add: reloadedChat_def reloaded_valid)
qed

section \<open>The role given at login\<close>

lemma lower_sameLetter:
  "\<not> (0x41 \<le> y \<and> y \<le> 0x5A) \<Longrightarrow> (asciiLower n = y) = sameLetter n y"
  by (auto simp: sameLetter_def asciiLower_def)

lemma asciiLower_eq_iff:
  "\<forall>y\<in>set t. \<not> (0x41 \<le> y \<and> y \<le> 0x5A) \<Longrightarrow>
   map asciiLower name = t \<longleftrightarrow> equalsIgnoreCase name t"
proof (induction name arbitrary: t)
  case Nil
  then show ?case by (auto simp: equalsIgnoreCase_def)
next
  case (Cons n name)
  show ?case
  proof (cases t)
    case Nil
    then show ?thesis by (simp add: equalsIgnoreCase_def)
  next
    case (Cons y t')
    with Cons.prems have y: "\<not> (0x41 \<le> y \<and> y \<le> 0x5A)" and
      t': "\<forall>y\<in>set t'. \<not> (0x41 \<le> y \<and> y \<le> 0x5A)" by simp_all
    from Cons.IH [OF t'] have "map asciiLower name = t' \<longleftrightarrow> list_all2 sameLetter name t'"
      by (simp add: equalsIgnoreCase_def)
    with lower_sameLetter [OF y, of n] Cons show ?thesis
      by (simp add: equalsIgnoreCase_def)
  qed
qed

lemma sameLetter_ascii: "sameLetter x y \<Longrightarrow> y < 0x80 \<Longrightarrow> x < 0x80"
  by (auto simp: sameLetter_def word_le_nat_alt word_less_nat_alt unat_word_ariths)

lemma equalsIgnoreCase_ascii: "equalsIgnoreCase name t \<Longrightarrow> isAscii t \<Longrightarrow> isAscii name"
  unfolding equalsIgnoreCase_def isAscii_def
  by (induction name t rule: list_all2_induct) (auto dest: sameLetter_ascii)

lemma admin_facts:
  "isAscii (js ''admin'')" "map asciiLower (js ''admin'') = js ''admin''"
  "\<forall>y\<in>set (js ''admin''). \<not> (0x41 \<le> y \<and> y \<le> 0x5A)"
  by (simp_all add: js_def isAscii_def asciiLower_def)

lemma toLowerCase_admin: "toLowerCase L (js ''admin'') = js ''admin''"
  by (simp add: toLowerCase_def admin_facts)

lemma role_admin_ascii:
  "isAscii name \<Longrightarrow> toLowerCase L name = js ''admin'' \<longleftrightarrow> equalsIgnoreCase name (js ''admin'')"
  by (simp add: toLowerCase_def asciiLower_eq_iff admin_facts)

lemma role_admin_iff:
  assumes "\<forall>s. \<not> isAscii s \<longrightarrow> L s \<noteq> js ''admin''"
  shows "toLowerCase L name = js ''admin'' \<longleftrightarrow> equalsIgnoreCase name (js ''admin'')"
proof (cases "isAscii name")
  case True
  then show ?thesis by (rule role_admin_ascii)
next
  case False
  with assms have "toLowerCase L name \<noteq> js ''admin''"
    by (simp add: toLowerCase_def)
  moreover have "\<not> equalsIgnoreCase name (js ''admin'')"
    using False equalsIgnoreCase_ascii [of name "js ''admin''"] admin_facts(1) by blast
  ultimately show ?thesis by simp
qed

lemma example_lower_unit:
  "(if c = 0xC0 then 0xE0 else asciiLower c) < (0x80 :: 16 word) \<Longrightarrow> c < 0x80"
  by (auto simp: asciiLower_def word_le_nat_alt word_less_nat_alt split: if_splits)

lemma example_unicodeLower_ascii: "isAscii (example_unicodeLower s) \<Longrightarrow> isAscii s"
  unfolding isAscii_def example_unicodeLower_def
  by (induction s) (auto dest: example_lower_unit simp del: of_nat_add)

lemma example_unicodeLower_admin: "\<forall>s. \<not> isAscii s \<longrightarrow> example_unicodeLower s \<noteq> js ''admin''"
  using example_unicodeLower_ascii admin_facts(1) by metis

lemma equalsIgnoreCase_examples:
  "equalsIgnoreCase (js ''Admin'') (js ''admin'')" "equalsIgnoreCase (js ''ADMIN'') (js ''admin'')"
  "\<not> equalsIgnoreCase (js ''viewer'') (js ''admin'')"
  "\<not> equalsIgnoreCase (js ''admin2'') (js ''admin'')"
  "\<not> equalsIgnoreCase (0xC0 # js ''DMIN'') (js ''admin'')"
  by (simp_all add: equalsIgnoreCase_def sameLetter_def js_def)

section \<open>The question quota\<close>

lemma canAsk_admin: "role u = js ''admin'' \<Longrightarrow> canAskQuestion (Some u)"
  by (simp add: canAskQuestion_def)

lemma canAsk_other: "role u \<noteq> js ''admin'' \<Longrightarrow> canAskQuestion (Some u) = (questionsToday u < 10)"
  by (simp add: canAskQuestion_def)

lemma hsm_accept:
  assumes "user w = Some u" "trim (currentMessage w) \<noteq> []" "canAskQuestion (Some u)"
  shows "handleSendMessage t1 t2 w =
    (w\<lparr>isLoading := True,
       currentMessages := currentMessages w @
         [\<lparr>msg_id = Number_toString t1, content = currentMessage w, isBot = False, timestamp = TimeClip t2\<rparr>],
       currentMessage := [],
       user := Some (u\<lparr>questionsToday := questionsToday u + 1\<rparr>),
       localStorage := (localStorage w)
         (js ''user'' \<mapsto> JSON_stringify (UserData_toJSON (u\<lparr>questionsToday := questionsToday u + 1\<rparr>)))\<rparr>,
     Some \<lparr>p_userMessage = \<lparr>msg_id = Number_toString t1, content = currentMessage w, isBot = False, timestamp = TimeClip t2\<rparr>,
           p_updatedMessages = currentMessages w @
         [\<lparr>msg_id = Number_toString t1, content = currentMessage w, isBot = False, timestamp = TimeClip t2\<rparr>],
           p_activeChat = activeChat w, p_chatHistory = chatHistory w, p_username = username u\<rparr>)"
  using assms by (simp add: handleSendMessage_def Let_def)

lemma hsm_reject:
  assumes "user w = None \<or> trim (currentMessage w) = [] \<or> \<not> canAskQuestion (user w)"
  shows "handleSendMessage t1 t2 w = (w, None)"
  using assms by (auto simp add: handleSendMessage_def split: option.splits)

lemma timeout_user: "user (handleSendMessage_timeout e p w) = user w"
  by (simp add: handleSendMessage_timeout_def Let_def)

lemma turn_accept:
  assumes "user w = Some u" "trim (body i) \<noteq> []" "canAskQuestion (Some u)"
  shows "fst (turn i w) = True" "user (snd (turn i w)) = Some (u\<lparr>questionsToday := questionsToday u + 1\<rparr>)"
  using assms by (simp_all add: turn_def hsm_accept[where u=u] timeout_user)

lemma turn_reject:
  assumes "user w = Some u" "\<not> canAskQuestion (Some u)"
  shows "turn i w = (False, w\<lparr>currentMessage := body i\<rparr>)"
  using assms by (simp add: turn_def hsm_reject)

lemma turn_role:
  "user w = Some u \<Longrightarrow> \<exists>u'. user (snd (turn i w)) = Some u' \<and> role u' = role u"
  by (auto simp: turn_def handleSendMessage_def Let_def timeout_user split: option.splits)

lemma turns_admin:
  "user w = Some u \<Longrightarrow> role u = js ''admin'' \<Longrightarrow> \<forall>i\<in>set is. trim (body i) \<noteq> [] \<Longrightarrow>
   fst (turns is w) = replicate (length is) True"
proof (induction "is" arbitrary: w u)
  case Nil
  then show ?case by simp
next
  case (Cons i "is")
  have a: "fst (turn i w) = True"
    using Cons.prems by (intro turn_accept(1)[where u=u]) (simp_all add: canAsk_admin)
  have u': "user (snd (turn i w)) = Some (u\<lparr>questionsToday := questionsToday u + 1\<rparr>)"
    using Cons.prems by (intro turn_accept(2)) (simp_all add: canAsk_admin)
  have "fst (turns is (snd (turn i w))) = replicate (length is) True"
    using Cons.prems by (intro Cons.IH[OF u']) simp_all
  with a show ?case by (simp add: split_beta)
qed

lemma turns_rejected:
  "user w = Some u \<Longrightarrow> \<not> canAskQuestion (Some u) \<Longrightarrow>
   fst (turns is w) = replicate (length is) False \<and> user (snd (turns is w)) = Some u"
proof (induction "is" arbitrary: w)
  case Nil
  then show ?case by simp
next
  case (Cons i "is")
  have t: "turn i w = (False, w\<lparr>currentMessage := body i\<rparr>)"
    using Cons.prems by (rule turn_reject)
  have "fst (turns is (w\<lparr>currentMessage := body i\<rparr>)) = replicate (length is) False \<and>
        user (snd (turns is (w\<lparr>currentMessage := body i\<rparr>))) = Some u"
    using Cons.prems by (intro Cons.IH) simp_all
  with t show ?case by (simp add: split_beta)
qed

lemma turns_quota:
  "user w = Some u \<Longrightarrow> role u \<noteq> js ''admin'' \<Longrightarrow> questionsToday u \<le> 10 \<Longrightarrow>
   \<forall>i\<in>set is. trim (body i) \<noteq> [] \<Longrightarrow>
   fst (turns is w) =
     replicate (min (length is) (nat (10 - questionsToday u))) True @
     replicate (length is - nat (10 - questionsToday u)) False \<and>
   map_option questionsToday (user (snd (turns is w))) =
     Some (questionsToday u + int (min (length is) (nat (10 - questionsToday u))))"
proof (induction "is" arbitrary: w u)
  case Nil
  then show ?case by simp
next
  case (Cons i "is")
  show ?case
  proof (cases "questionsToday u < 10")
    case True
    let ?u' = "u\<lparr>questionsToday := questionsToday u + 1\<rparr>"
    have can: "canAskQuestion (Some u)"
      using Cons.prems True by (simp add: canAsk_other)
    have a: "fst (turn i w) = True"
      using Cons.prems can by (intro turn_accept(1)[where u=u]) simp_all
    have u': "user (snd (turn i w)) = Some ?u'"
      using Cons.prems can by (intro turn_accept(2)) simp_all
    have ih: "fst (turns is (snd (turn i w))) =
         replicate (min (length is) (nat (10 - questionsToday ?u'))) True @
         replicate (length is - nat (10 - questionsToday ?u')) False \<and>
       map_option questionsToday (user (snd (turns is (snd (turn i w))))) =
         Some (questionsToday ?u' + int (min (length is) (nat (10 - questionsToday ?u'))))"
      using Cons.prems True by (intro Cons.IH[OF u']) simp_all
    have k: "nat (10 - questionsToday u) = Suc (nat (10 - (questionsToday u + 1)))"
      using True by simp
    show ?thesis
      using a ih by (auto simp add: split_beta k)
  next
    case False
    have no: "\<not> canAskQuestion (Some u)"
      using Cons.prems False by (simp add: canAsk_other)
    have "fst (turns (i # is) w) = replicate (length (i # is)) False \<and>
          user (snd (turns (i # is) w)) = Some u"
      using Cons.prems(1) no by (rule turns_rejected)
    with False Cons.prems(3) show ?thesis by simp
  qed
qed

lemma trim_hello: "trim (js ''hello'') \<noteq> []"
  by (simp add: trim_def js_def isWhiteSpace_def)

text \<open>
  Claim C1. For a session whose role is not "admin": while \<open>questionsToday\<close> is below 10
  a message that is not blank is accepted (the user message is appended and the count
  goes up by one); from 10 on \<open>handleSendMessage\<close> is a no-op (the world is unchanged, so
  no message is appended and the count stays); and of a run of sends from a count
  of 0 exactly the first 10 are accepted, the count ending at min(n, 10).
\<close>

theorem non_admin_quota:
  assumes "user w = Some u" and "role u \<noteq> js ''admin''"
  shows "(questionsToday u < 10 \<and> trim (currentMessage w) \<noteq> [] \<longrightarrow>
            (\<exists>p. snd (handleSendMessage t1 t2 w) = Some p) \<and>
            currentMessages (fst (handleSendMessage t1 t2 w)) =
              currentMessages w @
              [\<lparr>msg_id = Number_toString t1, content = currentMessage w, isBot = False,
                timestamp = TimeClip t2\<rparr>] \<and>
            user (fst (handleSendMessage t1 t2 w)) =
              Some (u\<lparr>questionsToday := questionsToday u + 1\<rparr>)) \<and>
         (10 \<le> questionsToday u \<longrightarrow> handleSendMessage t1 t2 w = (w, None)) \<and>
         (questionsToday u = 0 \<and> (\<forall>i\<in>set is. trim (body i) \<noteq> []) \<longrightarrow>
            fst (turns is w) =
              replicate (min (length is) 10) True @ replicate (length is - 10) False \<and>
            map_option questionsToday (user (snd (turns is w))) =
              Some (int (min (length is) 10)))"
proof (intro conjI impI)
  assume h: "questionsToday u < 10 \<and> trim (currentMessage w) \<noteq> []"
  then have can: "canAskQuestion (Some u)"
    using assms by (simp add: canAsk_other)
  note acc = hsm_accept [OF assms(1) _ can, of t1 t2]
  show "\<exists>p. snd (handleSendMessage t1 t2 w) = Some p"
    using h by (simp add: acc)
  show "currentMessages (fst (handleSendMessage t1 t2 w)) =
      currentMessages w @
      [\<lparr>msg_id = Number_toString t1, content = currentMessage w, isBot = False,
        timestamp = TimeClip t2\<rparr>]"
    using h by (simp add: acc)
  show "user (fst (handleSendMessage t1 t2 w)) =
      Some (u\<lparr>questionsToday := questionsToday u + 1\<rparr>)"
    using h by (simp add: acc)
next
  assume "10 \<le> questionsToday u"
  then have "\<not> canAskQuestion (user w)"
    using assms by (simp add: canAsk_other)
  then show "handleSendMessage t1 t2 w = (w, None)"
    by (simp add: hsm_reject)
next
  assume h: "questionsToday u = 0 \<and> (\<forall>i\<in>set is. trim (body i) \<noteq> [])"
  have q: "fst (turns is w) =
       replicate (min (length is) (nat (10 - questionsToday u))) True @
       replicate (length is - nat (10 - questionsToday u)) False \<and>
     map_option questionsToday (user (snd (turns is w))) =
       Some (questionsToday u + int (min (length is) (nat (10 - questionsToday u))))"
    using assms h by (intro turns_quota) simp_all
  show "fst (turns is w) =
      replicate (min (length is) 10) True @ replicate (length is - 10) False"
    using q h by simp
  show "map_option questionsToday (user (snd (turns is w))) = Some (int (min (length is) 10))"
    using q h by simp
qed

theorem non_admin_quota_witness:
  "snd (handleSendMessage 1 2 (example_world (js ''viewer'') 9 (js ''hello''))) \<noteq> None \<and>
   handleSendMessage 1 2 (example_world (js ''viewer'') 10 (js ''hello'')) =
     (example_world (js ''viewer'') 10 (js ''hello''), None) \<and>
   fst (turns (replicate 11 (example_turn (js ''hello''))) (example_world (js ''viewer'') 0 [])) =
     replicate 10 True @ [False] \<and>
   map_option questionsToday
     (user (snd (turns (replicate 11 (example_turn (js ''hello'')))
        (example_world (js ''viewer'') 0 [])))) = Some 10"
proof -
  have ne: "js ''viewer'' \<noteq> js ''admin''"
    by (simp add: js_def)
  have b: "\<forall>i\<in>set (replicate 11 (example_turn (js ''hello''))). trim (body i) \<noteq> []"
    by (simp add: example_turn_def trim_hello)
  show ?thesis
    using non_admin_quota [of "example_world (js ''viewer'') 9 (js ''hello'')"
        "\<lparr>username = js ''viewer'', role = js ''viewer'', questionsToday = 9\<rparr>" 1 2 "[]"]
      non_admin_quota [of "example_world (js ''viewer'') 10 (js ''hello'')"
        "\<lparr>username = js ''viewer'', role = js ''viewer'', questionsToday = 10\<rparr>" 1 2 "[]"]
      non_admin_quota [of "example_world (js ''viewer'') 0 []"
        "\<lparr>username = js ''viewer'', role = js ''viewer'', questionsToday = 0\<rparr>" 1 2
        "replicate 11 (example_turn (js ''hello''))"]
      ne b trim_hello
    by (simp add: example_world_def)
qed

text \<open>
  Claim C2. For a session with role "admin" and any value of \<open>questionsToday\<close> (also 10
  and above) \<open>canAskQuestion\<close> holds, so \<open>handleSendMessage\<close> accepts every message that
  is not blank; any run of such sends (15 of them in particular) is accepted throughout.
\<close>

theorem admin_never_limited:
  assumes "user w = Some u" and "role u = js ''admin''"
  shows "canAskQuestion (user w) \<and>
         (trim (currentMessage w) \<noteq> [] \<longrightarrow>
            (\<exists>p. snd (handleSendMessage t1 t2 w) = Some p) \<and>
            currentMessages (fst (handleSendMessage t1 t2 w)) =
              currentMessages w @
              [\<lparr>msg_id = Number_toString t1, content = currentMessage w, isBot = False,
                timestamp = TimeClip t2\<rparr>]) \<and>
         ((\<forall>i\<in>set is. trim (body i) \<noteq> []) \<longrightarrow> fst (turns is w) = replicate (length is) True)"
proof (intro conjI impI)
  show can: "canAskQuestion (user w)"
    using assms by (simp add: canAsk_admin)
  have can': "canAskQuestion (Some u)"
    using assms by (simp add: canAsk_admin)
  {
    assume h: "trim (currentMessage w) \<noteq> []"
    note acc = hsm_accept [OF assms(1) h can', of t1 t2]
    show "\<exists>p. snd (handleSendMessage t1 t2 w) = Some p"
      by (simp add: acc)
    show "currentMessages (fst (handleSendMessage t1 t2 w)) =
        currentMessages w @
        [\<lparr>msg_id = Number_toString t1, content = currentMessage w, isBot = False,
          timestamp = TimeClip t2\<rparr>]"
      by (simp add: acc)
  }
  assume "\<forall>i\<in>set is. trim (body i) \<noteq> []"
  then show "fst (turns is w) = replicate (length is) True"
    using assms by (intro turns_admin [where u = u]) simp_all
qed

theorem admin_never_limited_witness:
  "canAskQuestion (user (example_world (js ''admin'') 10 (js ''hello''))) \<and>
   snd (handleSendMessage 1 2 (example_world (js ''admin'') 10 (js ''hello''))) \<noteq> None \<and>
   fst (turns (replicate 15 (example_turn (js ''hello''))) (example_world (js ''admin'') 0 [])) =
     replicate 15 True"
proof -
  have b: "\<forall>i\<in>set (replicate 15 (example_turn (js ''hello''))). trim (body i) \<noteq> []"
    by (simp add: example_turn_def trim_hello)
  show ?thesis
    using admin_never_limited [of "example_world (js ''admin'') 10 (js ''hello'')"
        "\<lparr>username = js ''admin'', role = js ''admin'', questionsToday = 10\<rparr>" 1 2 "[]"]
      admin_never_limited [of "example_world (js ''admin'') 0 []"
        "\<lparr>username = js ''admin'', role = js ''admin'', questionsToday = 0\<rparr>" 1 2
        "replicate 15 (example_turn (js ''hello''))"]
      b trim_hello
    by (simp add: example_world_def)
qed

text \<open>
  Claim C3, as the code has it. The count is incremented by every accepted send,
  whatever the role: \<open>handleSendMessage\<close> writes \<open>questionsToday + 1\<close> without looking at
  the role, so an admin's count goes up too (it is only never compared with the limit).
  A rejected send changes nothing, and the timer callback never touches the user.
\<close>

theorem accepted_send_increments:
  assumes "user w = Some u"
  shows "(snd (handleSendMessage t1 t2 w) \<noteq> None \<longrightarrow>
            user (fst (handleSendMessage t1 t2 w)) =
              Some (u\<lparr>questionsToday := questionsToday u + 1\<rparr>)) \<and>
         (snd (handleSendMessage t1 t2 w) = None \<longrightarrow> fst (handleSendMessage t1 t2 w) = w) \<and>
         user (handleSendMessage_timeout e p w) = user w"
  using assms by (auto simp: handleSendMessage_def Let_def timeout_user)

theorem accepted_send_increments_witness:
  "user (fst (handleSendMessage 1 2 (example_world (js ''admin'') 3 (js ''hello'')))) =
     Some \<lparr>username = js ''admin'', role = js ''admin'', questionsToday = 4\<rparr> \<and>
   user (fst (handleSendMessage 1 2 (example_world (js ''viewer'') 3 (js ''hello'')))) =
     Some \<lparr>username = js ''viewer'', role = js ''viewer'', questionsToday = 4\<rparr> \<and>
   fst (handleSendMessage 1 2 (example_world (js ''viewer'') 10 (js ''hello''))) =
     example_world (js ''viewer'') 10 (js ''hello'')"
proof -
  have ne: "js ''viewer'' \<noteq> js ''admin''"
    by (simp add: js_def)
  have a: "snd (handleSendMessage 1 2 (example_world (js ''admin'') 3 (js ''hello''))) \<noteq> None"
    using trim_hello by (simp add: handleSendMessage_def example_world_def canAskQuestion_def Let_def)
  have v: "snd (handleSendMessage 1 2 (example_world (js ''viewer'') 3 (js ''hello''))) \<noteq> None"
    using trim_hello ne
    by (simp add: handleSendMessage_def example_world_def canAskQuestion_def Let_def)
  have r: "snd (handleSendMessage 1 2 (example_world (js ''viewer'') 10 (js ''hello''))) = None"
    using trim_hello ne
    by (simp add: handleSendMessage_def example_world_def canAskQuestion_def Let_def)
  show ?thesis
    using accepted_send_increments [of "example_world (js ''admin'') 3 (js ''hello'')"
        "\<lparr>username = js ''admin'', role = js ''admin'', questionsToday = 3\<rparr>" 1 2]
      accepted_send_increments [of "example_world (js ''viewer'') 3 (js ''hello'')"
        "\<lparr>username = js ''viewer'', role = js ''viewer'', questionsToday = 3\<rparr>" 1 2]
      accepted_send_increments [of "example_world (js ''viewer'') 10 (js ''hello'')"
        "\<lparr>username = js ''viewer'', role = js ''viewer'', questionsToday = 10\<rparr>" 1 2]
      a v r
    by (simp add: example_world_def)
qed

text \<open>
  The claim C3 as the specification words it fails: an accepted send of an admin,
  starting from a count of 0, leaves the count at 1.
\<close>

theorem admin_count_counterexample:
  "user (example_world (js ''admin'') 0 (js ''hello'')) =
     Some \<lparr>username = js ''admin'', role = js ''admin'', questionsToday = 0\<rparr> \<and>
   snd (handleSendMessage 1 2 (example_world (js ''admin'') 0 (js ''hello''))) \<noteq> None \<and>
   user (fst (handleSendMessage 1 2 (example_world (js ''admin'') 0 (js ''hello'')))) =
     Some \<lparr>username = js ''admin'', role = js ''admin'', questionsToday = 1\<rparr>"
  using trim_hello by (simp add: handleSendMessage_def example_world_def canAskQuestion_def Let_def)

section \<open>Transcripts: titles and ordering\<close>

lemma chatTitle_short: "length b \<le> 30 \<Longrightarrow> chatTitle b = b"
  by (simp add: chatTitle_def)

lemma chatTitle_long: "30 < length b \<Longrightarrow> chatTitle b = take 30 b @ js ''...''"
  by (simp add: chatTitle_def)

lemma timeout_new:
  "\<not> truthy (p_activeChat p) \<Longrightarrow>
   chatHistory (handleSendMessage_timeout e p w) =
     \<lparr>chat_id = generateChatId (now_chatId e) (random_chatId e),
      title = chatTitle (content (p_userMessage p)),
      messages = p_updatedMessages p @
        [\<lparr>msg_id = Number_toString (now_botId e + 1),
          content = generateBotResponse (random_reply e) (content (p_userMessage p)),
          isBot = True, timestamp = TimeClip (now_botStamp e)\<rparr>],
      createdAt = TimeClip (now_created e)\<rparr> # p_chatHistory p \<and>
   activeChat (handleSendMessage_timeout e p w) =
     Some (generateChatId (now_chatId e) (random_chatId e))"
  by (simp add: handleSendMessage_timeout_def Let_def)

lemma timeout_existing:
  "truthy (p_activeChat p) \<Longrightarrow>
   chatHistory (handleSendMessage_timeout e p w) =
     map (\<lambda>chat. if Some (chat_id chat) = p_activeChat p
                  then chat\<lparr>messages := p_updatedMessages p @
        [\<lparr>msg_id = Number_toString (now_botId e + 1),
          content = generateBotResponse (random_reply e) (content (p_userMessage p)),
          isBot = True, timestamp = TimeClip (now_botStamp e)\<rparr>],
                    title := chatTitle (content (p_userMessage p))\<rparr>
                  else chat) (p_chatHistory p) \<and>
   activeChat (handleSendMessage_timeout e p w) = activeChat w"
  by (simp add: handleSendMessage_timeout_def Let_def)

lemma timeout_messages:
  "currentMessages (handleSendMessage_timeout e p w) = p_updatedMessages p @
        [\<lparr>msg_id = Number_toString (now_botId e + 1),
          content = generateBotResponse (random_reply e) (content (p_userMessage p)),
          isBot = True, timestamp = TimeClip (now_botStamp e)\<rparr>]"
  by (simp add: handleSendMessage_timeout_def Let_def)

lemma hsm_pending:
  assumes "handleSendMessage t1 t2 w = (w1, Some p)"
  shows "p_userMessage p = \<lparr>msg_id = Number_toString t1, content = currentMessage w, isBot = False, timestamp = TimeClip t2\<rparr>"
    "p_updatedMessages p = currentMessages w @ [p_userMessage p]"
    "p_activeChat p = activeChat w" "p_chatHistory p = chatHistory w"
    "activeChat w1 = activeChat w" "chatHistory w1 = chatHistory w"
  using assms by (auto simp: handleSendMessage_def Let_def split: option.splits if_splits)

lemma generateChatId_nonempty: "generateChatId n r \<noteq> []"
  by (simp add: generateChatId_def js_def)

lemma find_map_update:
  "find (\<lambda>c. chat_id c = a) (map (\<lambda>chat. if chat_id chat = a then f chat else chat) cs) =
   map_option f (find (\<lambda>c. chat_id c = a) cs)" if "\<And>c. chat_id (f c) = chat_id c"
  using that by (induction cs) auto

text \<open>
  Claim C6. The title derived from a user message is the message itself, with no
  ellipsis, when it has at most 30 code units, and its first 30 code units followed by
  "..." when it has 31 or more; this is the title the timer callback gives a new
  transcript.
\<close>

theorem title_truncation:
  "(length b \<le> 30 \<longrightarrow> chatTitle b = b) \<and>
   (31 \<le> length b \<longrightarrow> chatTitle b = take 30 b @ js ''...'' \<and> length (chatTitle b) = 33) \<and>
   (\<not> truthy (p_activeChat p) \<longrightarrow>
      map title (chatHistory (handleSendMessage_timeout e p w)) =
        chatTitle (content (p_userMessage p)) # map title (p_chatHistory p))"
  by (simp add: chatTitle_short chatTitle_long timeout_new js_def)

theorem title_truncation_witness:
  "chatTitle (replicate 30 0x61) = replicate 30 0x61 \<and>
   chatTitle (replicate 31 0x61) = replicate 30 0x61 @ js ''...'' \<and>
   map title (chatHistory (handleSendMessage_timeout example_env example_pending
       (example_world (js ''viewer'') 1 []))) = [replicate 30 0x61 @ js ''...'']"
proof -
  have n: "\<not> truthy (p_activeChat example_pending)"
    "content (p_userMessage example_pending) = replicate 31 0x61"
    "p_chatHistory example_pending = []"
    by (simp_all add: example_pending_def truthy_def)
  show ?thesis
    using title_truncation [of "replicate 30 0x61"]
      title_truncation [of "replicate 31 0x61" example_pending example_env
        "example_world (js ''viewer'') 1 []"] n
    by simp
qed

text \<open>
  Claim C5, as the code has it. The title is written by the timer callback of every
  accepted send, from the user message of that send. The callback stores the transcript
  list captured at the send with this change: when a transcript was active at the send,
  every transcript with that identifier gets the truncation of this message as its
  title, whether the message is the first of the conversation or a later one, and every
  other transcript keeps its title; when none was active, a new transcript with that
  title is put in front. This holds whatever happened between the send and the timer.
  The send itself, New Chat, opening a transcript and logging out leave the transcript
  list, and so every title, as it is.
\<close>

theorem title_follows_latest_message:
  assumes "handleSendMessage t1 t2 w = (w1, Some p)"
  shows "(\<not> truthy (activeChat w) \<longrightarrow>
           map title (chatHistory (handleSendMessage_timeout e p w2)) =
             chatTitle (currentMessage w) # map title (chatHistory w)) \<and>
         (truthy (activeChat w) \<longrightarrow>
           map title (chatHistory (handleSendMessage_timeout e p w2)) =
             map (\<lambda>c. if Some (chat_id c) = activeChat w then chatTitle (currentMessage w)
                       else title c) (chatHistory w) \<and>
           map chat_id (chatHistory (handleSendMessage_timeout e p w2)) =
             map chat_id (chatHistory w)) \<and>
         chatHistory w1 = chatHistory w \<and>
         chatHistory (startNewChat w) = chatHistory w \<and>
         chatHistory (loadChat chatId w) = chatHistory w \<and>
         chatHistory (handleLogout w) = chatHistory w"
proof -
  note hp = hsm_pending [OF assms]
  have n: "\<not> truthy (activeChat w) \<longrightarrow>
      map title (chatHistory (handleSendMessage_timeout e p w2)) =
        chatTitle (currentMessage w) # map title (chatHistory w)"
    using timeout_new [of p e w2] by (simp add: hp)
  have x: "truthy (activeChat w) \<longrightarrow>
      map title (chatHistory (handleSendMessage_timeout e p w2)) =
        map (\<lambda>c. if Some (chat_id c) = activeChat w then chatTitle (currentMessage w)
                  else title c) (chatHistory w)"
    using timeout_existing [of p e w2] by (simp add: hp comp_def if_distrib cong: if_cong)
  have y: "truthy (activeChat w) \<longrightarrow>
      map chat_id (chatHistory (handleSendMessage_timeout e p w2)) = map chat_id (chatHistory w)"
    using timeout_existing [of p e w2] by (simp add: hp comp_def)
  have o: "chatHistory (startNewChat w) = chatHistory w \<and>
      chatHistory (loadChat chatId w) = chatHistory w \<and>
      chatHistory (handleLogout w) = chatHistory w"
    by (simp add: startNewChat_def loadChat_def handleLogout_def split: option.splits)
  show ?thesis
    using n x y o hp(6) by blast
qed

lemma trim_first: "trim (js ''first question'') \<noteq> []"
  by (simp add: trim_def js_def isWhiteSpace_def)

lemma trim_second: "trim (js ''second question'') \<noteq> []"
  by (simp add: trim_def js_def isWhiteSpace_def)

lemma viewer_not_admin: "js ''viewer'' \<noteq> js ''admin''"
  by (simp add: js_def)

lemma two_turns_eval:
  "fst two_turns = [True, True] \<and>
   map title (chatHistory (snd two_turns)) = [chatTitle (js ''second question'')] \<and>
   map (map content \<circ> messages) (chatHistory (snd two_turns)) =
     [[js ''first question'', generateBotResponse 2 (js ''first question''),
       js ''second question'', generateBotResponse 2 (js ''second question'')]]"
  using trim_first trim_second viewer_not_admin generateChatId_nonempty
  by (simp add: two_turns_def turn_def handleSendMessage_def handleSendMessage_timeout_def
      example_turn_def example_world_def example_env_def Let_def canAskQuestion_def truthy_def)

text \<open>
  The claim C5 as the specification words it fails: after two turns in one conversation
  the title is the second user message, not the truncation of the first.
\<close>

theorem title_first_message_counterexample:
  "fst two_turns = [True, True] \<and>
   map (map content \<circ> messages) (chatHistory (snd two_turns)) =
     [[js ''first question'', generateBotResponse 2 (js ''first question''),
       js ''second question'', generateBotResponse 2 (js ''second question'')]] \<and>
   map title (chatHistory (snd two_turns)) = [js ''second question''] \<and>
   js ''second question'' \<noteq> chatTitle (js ''first question'')"
proof -
  have "chatTitle (js ''second question'') = js ''second question''"
    by (simp add: chatTitle_def js_def)
  moreover have "js ''second question'' \<noteq> chatTitle (js ''first question'')"
    by (simp add: chatTitle_def js_def)
  ultimately show ?thesis
    using two_turns_eval by simp
qed

lemma one_turn_eval:
  "fst one_turn = True \<and> activeTranscript (snd one_turn) \<noteq> None \<and>
   fst (turn (example_turn (js ''second question'')) (snd one_turn)) = True \<and>
   snd (turn (example_turn (js ''second question'')) (snd one_turn)) = snd two_turns"
  using trim_first trim_second viewer_not_admin generateChatId_nonempty
  by (simp add: one_turn_def two_turns_def turn_def handleSendMessage_def handleSendMessage_timeout_def
      example_turn_def example_world_def example_env_def Let_def canAskQuestion_def truthy_def
      activeTranscript_def)

lemma one_turn_state:
  "user (snd one_turn) = Some \<lparr>username = js ''viewer'', role = js ''viewer'', questionsToday = 1\<rparr> \<and>
   truthy (activeChat (snd one_turn)) \<and> length (chatHistory (snd one_turn)) = 1 \<and>
   length (currentMessages (snd one_turn)) = 2"
  using trim_first viewer_not_admin generateChatId_nonempty
  by (simp add: one_turn_def turn_def handleSendMessage_def handleSendMessage_timeout_def
      example_turn_def example_world_def example_env_def Let_def canAskQuestion_def truthy_def)

theorem title_follows_latest_message_witness:
  "map title (chatHistory (snd one_turn)) = [js ''first question''] \<and>
   map title (chatHistory (snd two_turns)) = [js ''second question''] \<and>
   map chat_id (chatHistory (snd two_turns)) = map chat_id (chatHistory (snd one_turn))"
proof -
  have ct: "chatTitle (js ''first question'') = js ''first question''"
    "chatTitle (js ''second question'') = js ''second question''"
    by (simp_all add: chatTitle_def js_def)
  obtain w1 p where h: "handleSendMessage 1000 1000 (example_world (js ''viewer'') 0 (js ''first question''))
      = (w1, Some p)"
    using trim_first viewer_not_admin
    by (simp add: handleSendMessage_def example_world_def canAskQuestion_def Let_def)
  have o: "snd one_turn = handleSendMessage_timeout example_env p w1"
    using h by (simp add: one_turn_def turn_def example_turn_def example_world_def)
  have f: "\<not> truthy (activeChat (example_world (js ''viewer'') 0 (js ''first question'')))"
    "currentMessage (example_world (js ''viewer'') 0 (js ''first question'')) = js ''first question''"
    "chatHistory (example_world (js ''viewer'') 0 (js ''first question'')) = []"
    by (simp_all add: example_world_def truthy_def)
  have first: "map title (chatHistory (snd one_turn)) = [js ''first question'']"
    using title_follows_latest_message [OF h, of example_env w1 "[]"] f
    by (simp add: o ct)
  let ?w = "(snd one_turn)\<lparr>currentMessage := js ''second question''\<rparr>"
  obtain w2 q where h2: "handleSendMessage 1000 1000 ?w = (w2, Some q)"
    using trim_second viewer_not_admin one_turn_state
    by (simp add: handleSendMessage_def canAskQuestion_def Let_def)
  have t: "snd two_turns = handleSendMessage_timeout example_env q w2"
    using h2 one_turn_eval by (simp add: turn_def example_turn_def)
  have a: "truthy (activeChat ?w)" "currentMessage ?w = js ''second question''"
    "chatHistory ?w = chatHistory (snd one_turn)" "activeChat ?w = activeChat (snd one_turn)"
    using one_turn_state by simp_all
  obtain c where c: "chatHistory (snd one_turn) = [c]" "Some (chat_id c) = activeChat (snd one_turn)"
    using trim_first viewer_not_admin generateChatId_nonempty
    by (simp add: one_turn_def turn_def handleSendMessage_def handleSendMessage_timeout_def
      example_turn_def example_world_def example_env_def Let_def canAskQuestion_def truthy_def)
  have second: "map title (chatHistory (snd two_turns)) = [js ''second question''] \<and>
      map chat_id (chatHistory (snd two_turns)) = map chat_id (chatHistory (snd one_turn))"
    using title_follows_latest_message [OF h2, of example_env w2 "[]"] a c
    by (simp add: t ct)
  from first second show ?thesis by blast
qed

lemma example_chat_ids:
  "generateChatId 2500 (js ''k3j9x0q1z'') = js ''chat-2500-k3j9x0q1z''"
  "generateChatId 6500 (js ''b7c2m4x8p'') = js ''chat-6500-b7c2m4x8p''"
  by (simp_all add: generateChatId_def Number_toString_def natToString_big natToString_small
      digit_def js_def)

lemma example_trims:
  "trim (js ''question a'') \<noteq> []" "trim (js ''question b'') \<noteq> []"
  "trim (js ''late'') \<noteq> []" "trim (js ''next'') \<noteq> []"
  by (simp_all add: trim_def js_def isWhiteSpace_def)

lemma example_ids_differ:
  "js ''chat-2500-k3j9x0q1z'' \<noteq> js ''chat-6500-b7c2m4x8p''"
  "js ''chat-2500-k3j9x0q1z'' \<noteq> []" "js ''chat-6500-b7c2m4x8p'' \<noteq> []"
  by (simp_all add: js_def)

lemma example_reply:
  "generateBotResponse 2 m = js ''Based on your question, I can provide some insights on this topic.''"
  by (simp add: generateBotResponse_def)

lemma two_chats_eval:
  "chatHistory two_chats =
     [\<lparr>chat_id = js ''chat-6500-b7c2m4x8p'', title = js ''question b'',
       messages =
         [\<lparr>msg_id = js ''5000'', content = js ''question b'', isBot = False, timestamp = TimeValue 5000\<rparr>,
          \<lparr>msg_id = js ''6501'', content = generateBotResponse 2 (js ''question b''), isBot = True,
            timestamp = TimeValue 6500\<rparr>],
       createdAt = TimeValue 6500\<rparr>,
      \<lparr>chat_id = js ''chat-2500-k3j9x0q1z'', title = js ''question a'',
       messages =
         [\<lparr>msg_id = js ''1000'', content = js ''question a'', isBot = False, timestamp = TimeValue 1000\<rparr>,
          \<lparr>msg_id = js ''2501'', content = generateBotResponse 2 (js ''question a''), isBot = True,
            timestamp = TimeValue 2500\<rparr>],
       createdAt = TimeValue 2500\<rparr>] \<and>
   activeChat two_chats = Some (js ''chat-6500-b7c2m4x8p'') \<and>
   user two_chats = Some \<lparr>username = js ''viewer'', role = js ''viewer'', questionsToday = 2\<rparr>"
  using example_trims example_ids_differ example_chat_ids viewer_not_admin
  by (simp add: two_chats_def turn_def handleSendMessage_def handleSendMessage_timeout_def
      example_turn_def example_world_def example_env_def example_env_b_def Let_def
      canAskQuestion_def truthy_def startNewChat_def example_reply TimeClip_def chatTitle_def
      Number_toString_def natToString_big natToString_small digit_def js_def)

lemma stale_timer_eval:
  "activeChat stale_timer = Some (js ''chat-6500-b7c2m4x8p'') \<and>
   chatHistory stale_timer =
     [\<lparr>chat_id = js ''chat-6500-b7c2m4x8p'', title = js ''question b'',
       messages =
         [\<lparr>msg_id = js ''5000'', content = js ''question b'', isBot = False, timestamp = TimeValue 5000\<rparr>,
          \<lparr>msg_id = js ''6501'', content = generateBotResponse 2 (js ''question b''), isBot = True,
            timestamp = TimeValue 6500\<rparr>],
       createdAt = TimeValue 6500\<rparr>,
      \<lparr>chat_id = js ''chat-2500-k3j9x0q1z'', title = js ''late'',
       messages =
         [\<lparr>msg_id = js ''1000'', content = js ''question a'', isBot = False, timestamp = TimeValue 1000\<rparr>,
          \<lparr>msg_id = js ''2501'', content = generateBotResponse 2 (js ''question a''), isBot = True,
            timestamp = TimeValue 2500\<rparr>,
          \<lparr>msg_id = js ''8000'', content = js ''late'', isBot = False, timestamp = TimeValue 8000\<rparr>,
          \<lparr>msg_id = js ''9501'', content = generateBotResponse 2 (js ''late''), isBot = True,
            timestamp = TimeValue 9500\<rparr>],
       createdAt = TimeValue 2500\<rparr>] \<and>
   currentMessages stale_timer =
         [\<lparr>msg_id = js ''1000'', content = js ''question a'', isBot = False, timestamp = TimeValue 1000\<rparr>,
          \<lparr>msg_id = js ''2501'', content = generateBotResponse 2 (js ''question a''), isBot = True,
            timestamp = TimeValue 2500\<rparr>,
          \<lparr>msg_id = js ''8000'', content = js ''late'', isBot = False, timestamp = TimeValue 8000\<rparr>,
          \<lparr>msg_id = js ''9501'', content = generateBotResponse 2 (js ''late''), isBot = True,
            timestamp = TimeValue 9500\<rparr>] \<and>
   user stale_timer = Some \<lparr>username = js ''viewer'', role = js ''viewer'', questionsToday = 3\<rparr>"
  using example_trims example_ids_differ viewer_not_admin two_chats_eval
  by (simp add: stale_timer_def loadChat_def handleSendMessage_def handleSendMessage_timeout_def
      Let_def canAskQuestion_def truthy_def example_reply TimeClip_def chatTitle_def
      Number_toString_def natToString_big natToString_small digit_def js_def
      del: JSON_stringify.simps)

lemma stale_timer_next_eval:
  "fst stale_timer_next = True \<and>
   map (\<lambda>c. (chat_id c, map content (messages c))) (chatHistory (snd stale_timer_next)) =
     [(js ''chat-6500-b7c2m4x8p'',
        [js ''question a'', generateBotResponse 2 (js ''question a''),
         js ''late'', generateBotResponse 2 (js ''late''),
         js ''next'', generateBotResponse 2 (js ''next'')]),
      (js ''chat-2500-k3j9x0q1z'',
        [js ''question a'', generateBotResponse 2 (js ''question a''),
         js ''late'', generateBotResponse 2 (js ''late'')])]"
  using example_trims example_ids_differ viewer_not_admin stale_timer_eval
  by (simp add: stale_timer_next_def turn_def handleSendMessage_def handleSendMessage_timeout_def
      Let_def canAskQuestion_def truthy_def example_reply del: JSON_stringify.simps)

text \<open>
  Claim C8 says that within any transcript the messages are in the order in which they
  were appended to it. The code breaks this when a transcript is opened while a reply is
  pending: the send controls are disabled during the 1500 ms, New Chat and the sidebar
  entries are not, and the timer callback writes the message buffer of the transcript
  it was sent in over the buffer on display without changing the active transcript. In
  the run below the first transcript holds "question a" and the second "question b",
  each with its reply; "late" is sent in the first one, the second one is opened before
  the timer fires, and "next" is sent. After that the second transcript no longer holds
  "question b": its messages are those of the first transcript followed by "next" and
  its reply, none of which except the last two was ever appended to it. The other half
  of the claim holds in this run: each new transcript was put at position 0.
\<close>

theorem stale_timer_overwrites_transcript:
  "map (\<lambda>c. (chat_id c, map content (messages c))) (chatHistory two_chats) =
     [(js ''chat-6500-b7c2m4x8p'', [js ''question b'', generateBotResponse 2 (js ''question b'')]),
      (js ''chat-2500-k3j9x0q1z'', [js ''question a'', generateBotResponse 2 (js ''question a'')])] \<and>
   activeChat stale_timer = Some (js ''chat-6500-b7c2m4x8p'') \<and>
   map content (currentMessages stale_timer) =
     [js ''question a'', generateBotResponse 2 (js ''question a''),
      js ''late'', generateBotResponse 2 (js ''late'')] \<and>
   map (\<lambda>c. (chat_id c, map content (messages c))) (chatHistory stale_timer) =
     [(js ''chat-6500-b7c2m4x8p'', [js ''question b'', generateBotResponse 2 (js ''question b'')]),
      (js ''chat-2500-k3j9x0q1z'',
        [js ''question a'', generateBotResponse 2 (js ''question a''),
         js ''late'', generateBotResponse 2 (js ''late'')])] \<and>
   fst stale_timer_next = True \<and>
   map (\<lambda>c. (chat_id c, map content (messages c))) (chatHistory (snd stale_timer_next)) =
     [(js ''chat-6500-b7c2m4x8p'',
        [js ''question a'', generateBotResponse 2 (js ''question a''),
         js ''late'', generateBotResponse 2 (js ''late''),
         js ''next'', generateBotResponse 2 (js ''next'')]),
      (js ''chat-2500-k3j9x0q1z'',
        [js ''question a'', generateBotResponse 2 (js ''question a''),
         js ''late'', generateBotResponse 2 (js ''late'')])]"
  using two_chats_eval stale_timer_eval stale_timer_next_eval
  by simp

section \<open>Logout\<close>

text \<open>
  Claim C10. \<open>handleLogout\<close> removes the "user" entry of local storage and nothing else:
  the cookie jar is unchanged, so \<open>isAuthenticated\<close> answers as before, and every other
  key of local storage, the per-user transcript blobs among them, keeps its value.
\<close>

theorem logout_frame:
  "cookies (handleLogout w) = cookies w \<and>
   isAuthenticated (handleLogout w) = isAuthenticated w \<and>
   localStorage (handleLogout w) (js ''user'') = None \<and>
   (\<forall>k. k \<noteq> js ''user'' \<longrightarrow> localStorage (handleLogout w) k = localStorage w k) \<and>
   (\<forall>name. localStorage (handleLogout w) (js ''chatHistory_'' @ name) =
      localStorage w (js ''chatHistory_'' @ name)) \<and>
   user (handleLogout w) = user w \<and> chatHistory (handleLogout w) = chatHistory w"
  by (simp add: handleLogout_def isAuthenticated_def js_def)

theorem logout_frame_witness:
  "isAuthenticated example_browser \<and> isAuthenticated (handleLogout example_browser) \<and>
   localStorage (handleLogout example_browser) (js ''user'') = None \<and>
   localStorage (handleLogout example_browser) (js ''chatHistory_viewer'') = Some (js ''[]'')"
proof -
  have k: "js ''chatHistory_viewer'' \<noteq> js ''user''"
    by (simp add: js_def)
  have a: "isAuthenticated example_browser"
    by (simp add: example_browser_def isAuthenticated_def truthy_def js_def)
  have l: "localStorage example_browser (js ''chatHistory_viewer'') = Some (js ''[]'')"
    by (simp add: example_browser_def)
  show ?thesis
    using logout_frame [of example_browser] k a l by simp
qed

section \<open>Loading from local storage\<close>

lemma parse_broken: "JSON_parse (js ''{broken'') = None"
  by code_simp

lemma parse_open: "JSON_parse (js ''[{'') = None"
  by code_simp

lemma parse_user_blob:
  "JSON_parse example_user_blob =
     Some (UserData_toJSON \<lparr>username = js ''viewer'', role = js ''viewer'', questionsToday = 3\<rparr>)"
  by code_simp

lemma reviveUser_toJSON: "reviveUser (UserData_toJSON u) = Inr u"
  by (simp add: reviveUser_def UserData_toJSON_def getProp_def js_def)

text \<open>
  Claim C4, as the code has it. A missing blob (\<open>getItem\<close> gives null, or the empty
  string) is treated as absence: without a session blob the load effect sets no session
  and calls \<open>navigate("/")\<close>, with a session blob and without a transcript blob it sets
  the session and leaves the transcript list as it is. A blob that is present but is
  not valid JSON is not treated as absence: \<open>JSON.parse\<close> throws a \<open>SyntaxError\<close>,
  nothing catches it, and it leaves the load effect; this holds for the session blob and
  for the transcript blob alike.
\<close>

theorem load_without_catch:
  "(\<not> truthy (localStorage w (js ''user'')) \<longrightarrow> Chat_useEffect w = Inr (w\<lparr>location := js ''/''\<rparr>)) \<and>
   (localStorage w (js ''user'') = Some b \<and> b \<noteq> [] \<and> JSON_parse b = None \<longrightarrow>
      Chat_useEffect w = Inl SyntaxError) \<and>
   (localStorage w (js ''user'') = Some b \<and> b \<noteq> [] \<and> JSON_parse b = Some parsedUser \<and>
    reviveUser parsedUser = Inr u \<longrightarrow>
      (\<not> truthy (localStorage w (js ''chatHistory_'' @ username u)) \<longrightarrow>
         Chat_useEffect w = Inr (w\<lparr>user := Some u\<rparr>)) \<and>
      (localStorage w (js ''chatHistory_'' @ username u) = Some h \<and> h \<noteq> [] \<and>
       JSON_parse h = None \<longrightarrow> Chat_useEffect w = Inl SyntaxError))"
  by (simp add: Chat_useEffect_def truthy_def Let_def)

theorem load_without_catch_witness:
  "Chat_useEffect (example_stored []) = Inr ((example_stored [])\<lparr>location := js ''/''\<rparr>) \<and>
   Chat_useEffect (example_stored [(js ''user'', js ''{broken'')]) = Inl SyntaxError \<and>
   Chat_useEffect (example_stored [(js ''user'', example_user_blob)]) =
     Inr ((example_stored [(js ''user'', example_user_blob)])
       \<lparr>user := Some \<lparr>username = js ''viewer'', role = js ''viewer'', questionsToday = 3\<rparr>\<rparr>) \<and>
   Chat_useEffect (example_stored
       [(js ''user'', example_user_blob), (js ''chatHistory_viewer'', js ''[{'')]) =
     Inl SyntaxError"
proof -
  let ?u = "\<lparr>username = js ''viewer'', role = js ''viewer'', questionsToday = 3\<rparr>"
  have k: "js ''chatHistory_'' @ js ''viewer'' = js ''chatHistory_viewer''"
    "js ''chatHistory_viewer'' \<noteq> js ''user''" "js ''{broken'' \<noteq> []" "js ''[{'' \<noteq> []"
    "example_user_blob \<noteq> []"
    by (simp_all add: js_def example_user_blob_def)
  show ?thesis
    using load_without_catch [of "example_stored []"]
      load_without_catch [of "example_stored [(js ''user'', js ''{broken'')]" "js ''{broken''"]
      load_without_catch [of "example_stored [(js ''user'', example_user_blob)]"
        example_user_blob "UserData_toJSON ?u" ?u]
      load_without_catch [of "example_stored
        [(js ''user'', example_user_blob), (js ''chatHistory_viewer'', js ''[{'')]"
        example_user_blob "UserData_toJSON ?u" ?u "js ''[{''"]
      parse_broken parse_open parse_user_blob reviveUser_toJSON [of ?u] k
    by (simp add: example_stored_def truthy_def)
qed

text \<open>
  The claim C4 as the specification words it fails: with the session blob \<open>{broken\<close>, and
  with a sound session blob and the transcript blob \<open>[{\<close>, the load effect ends in a
  \<open>SyntaxError\<close>.
\<close>

theorem malformed_blob_counterexample:
  "localStorage (example_stored [(js ''user'', js ''{broken'')]) (js ''user'') = Some (js ''{broken'') \<and>
   JSON_parse (js ''{broken'') = None \<and>
   Chat_useEffect (example_stored [(js ''user'', js ''{broken'')]) = Inl SyntaxError \<and>
   localStorage (example_stored
       [(js ''user'', example_user_blob), (js ''chatHistory_viewer'', js ''[{'')])
     (js ''chatHistory_viewer'') = Some (js ''[{'') \<and>
   JSON_parse (js ''[{'') = None \<and>
   Chat_useEffect (example_stored
       [(js ''user'', example_user_blob), (js ''chatHistory_viewer'', js ''[{'')]) =
     Inl SyntaxError"
proof -
  have k: "js ''chatHistory_'' @ js ''viewer'' = js ''chatHistory_viewer''"
    "js ''chatHistory_viewer'' \<noteq> js ''user''" "js ''{broken'' \<noteq> []" "js ''[{'' \<noteq> []"
    "example_user_blob \<noteq> []"
    by (simp_all add: js_def example_user_blob_def)
  show ?thesis
    using parse_broken parse_open parse_user_blob k
    by (simp add: Chat_useEffect_def example_stored_def truthy_def reviveUser_toJSON Let_def)
qed

lemma stringify_history_nonempty: "JSON_stringify (JArr vs) \<noteq> []"
  by simp

lemma load_stored_history:
  assumes "localStorage w (js ''user'') = Some ub" "ub \<noteq> []" "JSON_parse ub = Some pu"
    "reviveUser pu = Inr u"
    "localStorage w (js ''chatHistory_'' @ username u) =
       Some (JSON_stringify (JArr (map ChatHistory_toJSON h)))"
  shows "Chat_useEffect w = Inr (w\<lparr>user := Some u, chatHistory := map reloadedChat h\<rparr>)"
  using assms
  by (simp add: Chat_useEffect_def truthy_def Let_def parse_history reviveHistory_toJSON
      stringify_history_nonempty del: JSON_stringify.simps)

lemma timeout_persists:
  "localStorage (handleSendMessage_timeout e p w) (js ''chatHistory_'' @ p_username p) =
     Some (JSON_stringify (JArr (map ChatHistory_toJSON
       (chatHistory (handleSendMessage_timeout e p w)))))"
  by (simp add: handleSendMessage_timeout_def Let_def del: JSON_stringify.simps)

text \<open>
  Claim C7. The timer callback stores the transcript list as \<open>JSON.stringify\<close> of it,
  \<open>JSON.parse\<close> reads that text back to the same JSON value, and the load effect turns
  it into a transcript list again: the order of the transcripts and of their messages,
  the identifiers, titles, bodies and \<open>isBot\<close> flags are identical, and every date comes
  back equal to the millisecond, so the list comes back unchanged. The dates are those
  of a transcript list of the program: valid \<open>Date\<close>s (each is made by \<open>new Date()\<close>, or
  by \<open>new Date(s)\<close> from a string that \<open>toISOString\<close> wrote).
\<close>

theorem transcripts_roundtrip:
  "localStorage (handleSendMessage_timeout e p w0) (js ''chatHistory_'' @ p_username p) =
     Some (JSON_stringify (JArr (map ChatHistory_toJSON
       (chatHistory (handleSendMessage_timeout e p w0))))) \<and>
   JSON_parse (JSON_stringify (JArr (map ChatHistory_toJSON h))) =
     Some (JArr (map ChatHistory_toJSON h)) \<and>
   reviveHistory (JArr (map ChatHistory_toJSON h)) = Inr (map reloadedChat h) \<and>
   (localStorage w (js ''user'') = Some ub \<and> ub \<noteq> [] \<and> JSON_parse ub = Some pu \<and>
    reviveUser pu = Inr u \<and>
    localStorage w (js ''chatHistory_'' @ username u) =
      Some (JSON_stringify (JArr (map ChatHistory_toJSON h))) \<longrightarrow>
      Chat_useEffect w = Inr (w\<lparr>user := Some u, chatHistory := map reloadedChat h\<rparr>)) \<and>
   map chat_id (map reloadedChat h) = map chat_id h \<and>
   map title (map reloadedChat h) = map title h \<and>
   map (\<lambda>c. map msg_id (messages c)) (map reloadedChat h) = map (\<lambda>c. map msg_id (messages c)) h \<and>
   map (\<lambda>c. map content (messages c)) (map reloadedChat h) =
     map (\<lambda>c. map content (messages c)) h \<and>
   map (\<lambda>c. map isBot (messages c)) (map reloadedChat h) = map (\<lambda>c. map isBot (messages c)) h \<and>
   ((\<forall>c\<in>set h. validDate (createdAt c) \<and> (\<forall>m\<in>set (messages c). validDate (timestamp m))) \<longrightarrow>
      map reloadedChat h = h)"
proof -
  have v: "(\<forall>c\<in>set h. validDate (createdAt c) \<and> (\<forall>m\<in>set (messages c). validDate (timestamp m))) \<longrightarrow>
      map reloadedChat h = h"
    by (auto intro!: map_idI reloadedChat_valid)
  show ?thesis
    using v load_stored_history [of w ub pu u h]
    by (simp add: timeout_persists parse_history reviveHistory_toJSON reloadedChat_fields
        comp_def del: JSON_stringify.simps)
qed

theorem transcripts_roundtrip_witness:
  "JSON_parse (JSON_stringify (JArr (map ChatHistory_toJSON example_history))) =
     Some (JArr (map ChatHistory_toJSON example_history)) \<and>
   reviveHistory (JArr (map ChatHistory_toJSON example_history)) = Inr example_history \<and>
   Chat_useEffect (example_stored [(js ''user'', example_user_blob),
       (js ''chatHistory_viewer'', JSON_stringify (JArr (map ChatHistory_toJSON example_history)))]) =
     Inr ((example_stored [(js ''user'', example_user_blob),
       (js ''chatHistory_viewer'', JSON_stringify (JArr (map ChatHistory_toJSON example_history)))])
       \<lparr>user := Some \<lparr>username = js ''viewer'', role = js ''viewer'', questionsToday = 3\<rparr>,
        chatHistory := example_history\<rparr>)"
proof -
  let ?u = "\<lparr>username = js ''viewer'', role = js ''viewer'', questionsToday = 3\<rparr>"
  let ?w = "example_stored [(js ''user'', example_user_blob),
       (js ''chatHistory_viewer'', JSON_stringify (JArr (map ChatHistory_toJSON example_history)))]"
  have k: "js ''chatHistory_'' @ js ''viewer'' = js ''chatHistory_viewer''"
    "js ''chatHistory_viewer'' \<noteq> js ''user''" "example_user_blob \<noteq> []"
    by (simp_all add: js_def example_user_blob_def)
  have val: "\<forall>c\<in>set example_history.
      validDate (createdAt c) \<and> (\<forall>m\<in>set (messages c). validDate (timestamp m))"
    by (simp add: example_history_def validDate_def)
  have l: "localStorage ?w (js ''user'') = Some example_user_blob"
    "localStorage ?w (js ''chatHistory_'' @ username ?u) =
      Some (JSON_stringify (JArr (map ChatHistory_toJSON example_history)))"
    using k by (simp_all add: example_stored_def del: JSON_stringify.simps)
  show ?thesis
    using transcripts_roundtrip [of _ _ _ example_history ?w example_user_blob
        "UserData_toJSON ?u" ?u] val l k(3) parse_user_blob reviveUser_toJSON [of ?u]
    by (simp add: validDate_def del: JSON_stringify.simps)
qed

lemma stringify_user_nonempty: "JSON_stringify (UserData_toJSON u) \<noteq> []"
  by (simp add: UserData_toJSON_def)

lemma history_key_not_user: "js ''chatHistory_'' @ name \<noteq> js ''user''"
  by (simp add: js_def)

text \<open>
  Claim C9. A login with a non-empty username and password stores a session whose role
  is \<open>username.toLowerCase()\<close> and whose count is 0, whatever the password is, and the
  chat page loads exactly that session from the stored blob; \<open>canAskQuestion\<close> exempts
  it from the quota at any count exactly when that role is "admin". Every username that
  equals "admin" up to the case of its letters gets the role "admin", and among the
  usernames of ASCII code units no other does. For a username with a code unit above 127
  the role is what the Unicode lowercasing of the engine gives; when that lowercasing
  turns no such string into "admin" (in the Unicode tables the only character above 127
  whose lowercase form is ASCII is the Kelvin sign, which becomes \<open>k\<close>), the role is
  "admin" exactly for the usernames that equal "admin" up to the case of their letters.
\<close>

theorem login_role:
  fixes L :: "jsstring \<Rightarrow> jsstring"
  assumes "name \<noteq> []" and "pw \<noteq> []"
  defines "session \<equiv> \<lparr>username = name, role = toLowerCase L name, questionsToday = 0\<rparr>"
  shows "localStorage (handleLogin L name pw w) (js ''user'') =
           Some (JSON_stringify (UserData_toJSON session)) \<and>
         JSON_parse (JSON_stringify (UserData_toJSON session)) = Some (UserData_toJSON session) \<and>
         reviveUser (UserData_toJSON session) = Inr session \<and>
         (\<not> truthy (localStorage w (js ''chatHistory_'' @ name)) \<longrightarrow>
            Chat_useEffect (handleLogin L name pw w) =
              Inr ((handleLogin L name pw w)\<lparr>user := Some session\<rparr>)) \<and>
         (canAskQuestion (Some (session\<lparr>questionsToday := q\<rparr>)) \<longleftrightarrow>
            role session = js ''admin'' \<or> q < 10) \<and>
         (equalsIgnoreCase name (js ''admin'') \<longrightarrow> role session = js ''admin'') \<and>
         (isAscii name \<longrightarrow>
            (role session = js ''admin'' \<longleftrightarrow> equalsIgnoreCase name (js ''admin''))) \<and>
         ((\<forall>s. \<not> isAscii s \<longrightarrow> L s \<noteq> js ''admin'') \<longrightarrow>
            (role session = js ''admin'' \<longleftrightarrow> equalsIgnoreCase name (js ''admin'')))"
proof -
  have st: "localStorage (handleLogin L name pw w) =
      (localStorage w)(js ''user'' \<mapsto> JSON_stringify (UserData_toJSON session))"
    using assms(1,2) by (simp add: handleLogin_def session_def)
  have eff: "\<not> truthy (localStorage w (js ''chatHistory_'' @ name)) \<longrightarrow>
      Chat_useEffect (handleLogin L name pw w) =
        Inr ((handleLogin L name pw w)\<lparr>user := Some session\<rparr>)"
    unfolding Chat_useEffect_def st
    by (simp add: truthy_def stringify_user_nonempty parse_user reviveUser_toJSON
        history_key_not_user session_def Let_def del: JSON_stringify.simps)
  have c: "canAskQuestion (Some (session\<lparr>questionsToday := q\<rparr>)) \<longleftrightarrow>
      role session = js ''admin'' \<or> q < 10"
    by (simp add: canAskQuestion_def session_def)
  have a: "isAscii name \<longrightarrow>
      (role session = js ''admin'' \<longleftrightarrow> equalsIgnoreCase name (js ''admin''))"
    by (simp add: session_def role_admin_ascii)
  have e: "equalsIgnoreCase name (js ''admin'') \<longrightarrow> role session = js ''admin''"
    using equalsIgnoreCase_ascii [of name "js ''admin''"] admin_facts(1)
      role_admin_ascii [of name L]
    by (auto simp: session_def)
  have r: "(\<forall>s. \<not> isAscii s \<longrightarrow> L s \<noteq> js ''admin'') \<longrightarrow>
      (role session = js ''admin'' \<longleftrightarrow> equalsIgnoreCase name (js ''admin''))"
    using role_admin_iff [of L name] by (simp add: session_def)
  have p: "JSON_parse (JSON_stringify (UserData_toJSON session)) = Some (UserData_toJSON session)"
    by (rule parse_user)
  have v: "reviveUser (UserData_toJSON session) = Inr session"
    by (rule reviveUser_toJSON)
  have s: "localStorage (handleLogin L name pw w) (js ''user'') =
      Some (JSON_stringify (UserData_toJSON session))"
    by (simp add: st del: JSON_stringify.simps)
  from s p v eff c e a r show ?thesis by blast
qed

theorem login_role_witness:
  "Chat_useEffect (handleLogin example_unicodeLower (js ''Admin'') (js ''secret'') (example_stored [])) =
     Inr ((handleLogin example_unicodeLower (js ''Admin'') (js ''secret'') (example_stored []))
       \<lparr>user := Some \<lparr>username = js ''Admin'', role = js ''admin'', questionsToday = 0\<rparr>\<rparr>) \<and>
   canAskQuestion (Some \<lparr>username = js ''Admin'', role = js ''admin'', questionsToday = 10\<rparr>) \<and>
   Chat_useEffect (handleLogin example_unicodeLower (js ''viewer'') (js ''admin'') (example_stored [])) =
     Inr ((handleLogin example_unicodeLower (js ''viewer'') (js ''admin'') (example_stored []))
       \<lparr>user := Some \<lparr>username = js ''viewer'', role = js ''viewer'', questionsToday = 0\<rparr>\<rparr>) \<and>
   \<not> canAskQuestion (Some \<lparr>username = js ''viewer'', role = js ''viewer'', questionsToday = 10\<rparr>) \<and>
   Chat_useEffect (handleLogin example_unicodeLower (0xC0 # js ''DMIN'') (js ''secret'')
       (example_stored [])) =
     Inr ((handleLogin example_unicodeLower (0xC0 # js ''DMIN'') (js ''secret'') (example_stored []))
       \<lparr>user := Some \<lparr>username = 0xC0 # js ''DMIN'', role = 0xE0 # js ''dmin'',
                       questionsToday = 0\<rparr>\<rparr>) \<and>
   \<not> canAskQuestion (Some \<lparr>username = 0xC0 # js ''DMIN'', role = 0xE0 # js ''dmin'',
                             questionsToday = 10\<rparr>)"
proof -
  have k: "js ''Admin'' \<noteq> []" "js ''secret'' \<noteq> []" "js ''viewer'' \<noteq> []" "js ''admin'' \<noteq> []"
    "0xC0 # js ''DMIN'' \<noteq> []"
    by (simp_all add: js_def)
  have l: "toLowerCase example_unicodeLower (js ''Admin'') = js ''admin''"
    "toLowerCase example_unicodeLower (js ''viewer'') = js ''viewer''"
    "toLowerCase example_unicodeLower (0xC0 # js ''DMIN'') = 0xE0 # js ''dmin''"
    "isAscii (js ''Admin'')" "isAscii (js ''viewer'')" "\<not> isAscii (0xC0 # js ''DMIN'')"
    "0xE0 # js ''dmin'' \<noteq> js ''admin''" "js ''viewer'' \<noteq> js ''admin''"
    by (simp_all add: js_def toLowerCase_def isAscii_def asciiLower_def example_unicodeLower_def)
  have n: "\<not> truthy (localStorage (example_stored []) k)" for k
    by (simp add: example_stored_def truthy_def)
  show ?thesis
    using login_role [OF k(1,2), of example_unicodeLower "example_stored []" 10]
      login_role [OF k(3,4), of example_unicodeLower "example_stored []" 10]
      login_role [OF k(5,2), of example_unicodeLower "example_stored []" 10]
      equalsIgnoreCase_examples example_unicodeLower_admin n
    by (simp add: l)
qed

end
